theory Spec2Isabelle
  imports Complex_Main "HOL-Library.Finite_Map" "HOL-Library.Multiset"
begin

section \<open>JavaScript values the cache handles\<close>

text \<open>
  A JavaScript number is NaN, an infinity, or a finite double; \<open>Num r\<close> stands for the
  finite double \<open>r\<close> (every real is admitted, the doubles among them). An optional
  parameter or field (\<^verbatim>\<open>userId?: string\<close>) is an \<open>option\<close>, \<open>None\<close> standing for
  \<^verbatim>\<open>undefined\<close>. A clock reading of \<^verbatim>\<open>Date.now()\<close> is a whole number of milliseconds, an
  \<open>int\<close>; so is a chunk count, the generation counter of a document.
\<close>

datatype js_number = NaN | Infinity | NegInfinity | Num real

text \<open>Truthiness of a number: 0 and NaN are falsy.\<close>

fun number_truthy :: "js_number \<Rightarrow> bool" where
  "number_truthy NaN = False"
| "number_truthy (Num r) = (r \<noteq> 0)"
| "number_truthy Infinity = True"
| "number_truthy NegInfinity = True"

text \<open>
  \<^verbatim>\<open>Date.now() + expirationTime\<close>. The sum of two finite numbers is the double nearest to
  the exact sum, or an infinity when that overflows. This rounding belongs to the
  language, not to the repository: it is the parameter \<open>rnd\<close> of every function that
  adds, and what is proved holds for every rounding.
\<close>

fun plus_now :: "(real \<Rightarrow> js_number) \<Rightarrow> int \<Rightarrow> js_number \<Rightarrow> js_number" where
  "plus_now rnd now NaN = NaN"
| "plus_now rnd now Infinity = Infinity"
| "plus_now rnd now NegInfinity = NegInfinity"
| "plus_now rnd now (Num r) = rnd (of_int now + r)"

text \<open>
  A number as it comes back from storage: \<^verbatim>\<open>JSON.stringify\<close> writes a finite number as
  itself and NaN and the infinities as \<^verbatim>\<open>null\<close>, here \<open>None\<close>.
\<close>

fun to_json :: "js_number \<Rightarrow> real option" where
  "to_json (Num r) = Some r"
| "to_json NaN = None"
| "to_json Infinity = None"
| "to_json NegInfinity = None"

text \<open>In a comparison \<^verbatim>\<open>null\<close> counts as 0.\<close>

fun to_number :: "real option \<Rightarrow> real" where
  "to_number None = 0"
| "to_number (Some r) = r"

text \<open>Truthiness of an optional string: \<^verbatim>\<open>undefined\<close> and \<^verbatim>\<open>""\<close> are falsy.\<close>

fun truthy :: "string option \<Rightarrow> bool" where
  "truthy None = False"
| "truthy (Some s) = (s \<noteq> [])"

section \<open>The summary cache (src/lib/cache.ts)\<close>

text \<open>
  \<^verbatim>\<open>interface CachedSummary\<close>, as an entry is read back from storage: \<open>expiresAt\<close> is a
  finite number or \<^verbatim>\<open>null\<close>, and an undefined \<open>userId\<close> is absent.
\<close>

record CachedSummary =
  summary :: string
  timestamp :: int
  docId :: string
  scope :: string
  expiresAt :: "real option"
  userId :: "string option"
  chunkCount :: int

text \<open>
  \<^verbatim>\<open>interface SummaryCache { [key: string]: CachedSummary }\<close>: the object that
  \<^verbatim>\<open>getCache\<close> parses out of local storage, as the finite map of its own properties.
  Every operation below takes the parsed object and returns the object it saves back,
  so the read-whole / write-whole cycle of \<^verbatim>\<open>getCache\<close> and \<^verbatim>\<open>saveCache\<close> is explicit
  state passing. The model is the browser case: storage is present and a save succeeds.
  Each operation takes the one clock reading \<open>now\<close> that its calls of \<^verbatim>\<open>Date.now()\<close>
  return.
\<close>

type_synonym SummaryCache = "(string, CachedSummary) fmap"

text \<open>
  The object is a plain one, so a key that is not an own property may still be found on
  \<^verbatim>\<open>Object.prototype\<close>: \<^verbatim>\<open>cache[key]\<close> is then a function, or the prototype itself for
  \<^verbatim>\<open>__proto__\<close>, a truthy value all of whose entry fields are \<^verbatim>\<open>undefined\<close>.
\<close>

definition inherited_keys :: "string list" where
  "inherited_keys =
     [''__proto__'', ''__defineGetter__'', ''__defineSetter__'', ''__lookupGetter__'',
      ''__lookupSetter__'', ''constructor'', ''hasOwnProperty'', ''isPrototypeOf'',
      ''propertyIsEnumerable'', ''toLocaleString'', ''toString'', ''valueOf'']"

datatype property = Own CachedSummary | Inherited | Missing

definition js_get :: "SummaryCache \<Rightarrow> string \<Rightarrow> property" where
  "js_get cache key =
     (case fmlookup cache key of
        Some item \<Rightarrow> Own item
      | None \<Rightarrow> if key \<in> set inherited_keys then Inherited else Missing)"

text \<open>
  \<^verbatim>\<open>cache[key] = item\<close> writes an own property, except that on an object without an own
  \<^verbatim>\<open>__proto__\<close> property the assignment to \<^verbatim>\<open>__proto__\<close> calls the inherited setter: the
  prototype changes and no property is written, so nothing reaches storage.
\<close>

definition js_set :: "SummaryCache \<Rightarrow> string \<Rightarrow> CachedSummary \<Rightarrow> SummaryCache" where
  "js_set cache key item =
     (if key = ''__proto__'' \<and> fmlookup cache key = None then cache
      else fmupd key item cache)"

definition DEFAULT_TTL :: int where
  "DEFAULT_TTL = 24 * 60 * 60 * 1000"

definition generateCacheKey :: "string \<Rightarrow> string \<Rightarrow> string option \<Rightarrow> string" where
  "generateCacheKey d sc u =
     (let userIdPart = (if truthy u then ''_'' @ the u else [])
      in d @ ''_'' @ sc @ userIdPart)"

text \<open>
  \<^verbatim>\<open>Date.now() > cachedItem.expiresAt\<close>; the clock reading is the parameter \<open>now\<close>.
\<close>

definition isExpired :: "int \<Rightarrow> CachedSummary \<Rightarrow> bool" where
  "isExpired now cachedItem = (of_int now > to_number (expiresAt cachedItem))"


text \<open>\<^verbatim>\<open>Object.keys\<close> lists the own properties only.\<close>

definition cleanExpiredEntries :: "int \<Rightarrow> SummaryCache \<Rightarrow> SummaryCache" where
  "cleanExpiredEntries now cache =
     fmfilter (\<lambda>k. case fmlookup cache k of None \<Rightarrow> False | Some e \<Rightarrow> \<not> isExpired now e) cache"

text \<open>\<^verbatim>\<open>delete cache[key]\<close> removes an own property and leaves an inherited one.\<close>

definition removeSummary :: "SummaryCache \<Rightarrow> string \<Rightarrow> string \<Rightarrow> string option \<Rightarrow> SummaryCache" where
  "removeSummary cache d sc u =
     (let cacheKey = generateCacheKey d sc u
      in if js_get cache cacheKey \<noteq> Missing then fmdrop cacheKey cache else cache)"

text \<open>
  \<^verbatim>\<open>getSummary\<close> returns the summary or \<^verbatim>\<open>null\<close>, together with the object left in
  storage. The checks are in the order of the source: sweep, lookup, expiry, owner,
  chunk count. On an inherited value every field read is \<^verbatim>\<open>undefined\<close>: it is never
  expired, its owner and its chunk count differ from any given one, and its summary is
  \<^verbatim>\<open>undefined\<close>.
\<close>

datatype cached = Null | Undefined | Summary string

definition getSummary ::
  "int \<Rightarrow> SummaryCache \<Rightarrow> string \<Rightarrow> string \<Rightarrow> string option \<Rightarrow> int option
     \<Rightarrow> cached \<times> SummaryCache" where
  "getSummary now store d sc u currentChunkCount =
     (let cache = cleanExpiredEntries now store;
          cacheKey = generateCacheKey d sc u
      in case js_get cache cacheKey of
           Missing \<Rightarrow> (Null, cache)
         | Own cachedItem \<Rightarrow>
             if isExpired now cachedItem then (Null, cache)
             else if truthy u \<and> userId cachedItem \<noteq> u then (Null, cache)
             else if currentChunkCount \<noteq> None
                     \<and> chunkCount cachedItem \<noteq> the currentChunkCount
               then (Null, removeSummary cache d sc u)
             else (Summary (summary cachedItem), cache)
         | Inherited \<Rightarrow>
             if truthy u then (Null, cache)
             else if currentChunkCount \<noteq> None then (Null, removeSummary cache d sc u)
             else (Undefined, cache))"

text \<open>
  \<^verbatim>\<open>ttl || this.DEFAULT_TTL\<close> and \<^verbatim>\<open>chunkCount || 0\<close>: an absent argument and a falsy
  number give the default. The entry is returned as storage will hold it.
\<close>

definition setSummary ::
  "(real \<Rightarrow> js_number) \<Rightarrow> int \<Rightarrow> SummaryCache \<Rightarrow> string \<Rightarrow> string \<Rightarrow> string
     \<Rightarrow> string option \<Rightarrow> js_number option \<Rightarrow> int option \<Rightarrow> SummaryCache" where
  "setSummary rnd now cache d s sc u ttl cc =
     (let cacheKey = generateCacheKey d sc u;
          expirationTime = (case ttl of None \<Rightarrow> Num (of_int DEFAULT_TTL)
                            | Some t \<Rightarrow> if number_truthy t then t
                                         else Num (of_int DEFAULT_TTL))
      in js_set cache cacheKey
           \<lparr> summary = s, timestamp = now, docId = d, scope = sc,
             expiresAt = to_json (plus_now rnd now expirationTime), userId = u,
             chunkCount = (case cc of None \<Rightarrow> 0 | Some c \<Rightarrow> if c = 0 then 0 else c) \<rparr>)"



text \<open>\<^verbatim>\<open>getSummary(...) !== null\<close>\<close>

definition isCached ::
  "int \<Rightarrow> SummaryCache \<Rightarrow> string \<Rightarrow> string \<Rightarrow> string option \<Rightarrow> int option \<Rightarrow> bool" where
  "isCached now store d sc u currentChunkCount =
     (fst (getSummary now store d sc u currentChunkCount) \<noteq> Null)"

section \<open>Serving a summary from the cache or the backend (src/hooks/use-api.ts)\<close>

text \<open>
  \<^verbatim>\<open>useSummarize\<close>'s \<^verbatim>\<open>mutationFn\<close>. Its collaborators are parameters: the owner
  \<open>u\<close> decoded from the token (\<open>None\<close> when there is no token or it does not parse),
  the outcome of \<^verbatim>\<open>documentsAPI.getDocument\<close> (the document's \<^verbatim>\<open>chunk_count\<close>, or a
  rejection), and the backend generator \<^verbatim>\<open>ragAPI.summarize\<close>. The two clock readings
  are those of the cache read and of the cache write, which an awaited backend call
  separates. The calls made to the backend are returned as a log.
\<close>

record SummarizeRequest =
  doc_id :: string
  req_scope :: string

datatype api_error = RequestFailed

datatype api_call = GetDocument string | Summarize SummarizeRequest

record SummarizeResult =
  res_summary :: string
  fromCache :: bool
  res_chunkCount :: int
  action :: string

record SummarizeRun =
  outcome :: "api_error + SummarizeResult"
  store_after :: SummaryCache
  calls :: "api_call list"

text \<open>\<^verbatim>\<open>data.scope || 'full'\<close>\<close>

definition scope_or_full :: "string \<Rightarrow> string" where
  "scope_or_full sc = (if sc \<noteq> [] then sc else ''full'')"

text \<open>\<^verbatim>\<open>if (cachedSummary)\<close>: only a non-empty string is truthy.\<close>

fun found :: "cached \<Rightarrow> bool" where
  "found (Summary s) = (s \<noteq> [])"
| "found Null = False"
| "found Undefined = False"

fun summary_of :: "cached \<Rightarrow> string" where
  "summary_of (Summary s) = s"
| "summary_of Null = []"
| "summary_of Undefined = []"

definition useSummarize ::
  "(real \<Rightarrow> js_number) \<Rightarrow> int \<Rightarrow> int \<Rightarrow> SummaryCache \<Rightarrow> string option \<Rightarrow> (api_error + int)
     \<Rightarrow> (SummarizeRequest \<Rightarrow> api_error + string) \<Rightarrow> SummarizeRequest \<Rightarrow> SummarizeRun" where
  "useSummarize rnd now_read now_write store u getDocument summarize data =
     (case getDocument of
        Inl e \<Rightarrow> \<lparr> outcome = Inl e, store_after = store, calls = [GetDocument (doc_id data)] \<rparr>
      | Inr currentChunkCount \<Rightarrow>
          (let (cachedSummary, store1) =
                 getSummary now_read store (doc_id data) (scope_or_full (req_scope data)) u
                   (Some currentChunkCount)
           in if found cachedSummary then
                \<lparr> outcome = Inr \<lparr> res_summary = summary_of cachedSummary, fromCache = True,
                                  res_chunkCount = currentChunkCount,
                                  action = ''loaded_from_cache'' \<rparr>,
                  store_after = store1,
                  calls = [GetDocument (doc_id data)] \<rparr>
              else
                (case summarize data of
                   Inl e \<Rightarrow>
                     \<lparr> outcome = Inl e, store_after = store1,
                       calls = [GetDocument (doc_id data), Summarize data] \<rparr>
                 | Inr response_summary \<Rightarrow>
                     \<lparr> outcome = Inr \<lparr> res_summary = response_summary, fromCache = False,
                                       res_chunkCount = currentChunkCount,
                                       action = ''generated_new'' \<rparr>,
                       store_after =
                         setSummary rnd now_write store1 (doc_id data) response_summary
                           (scope_or_full (req_scope data)) u None (Some currentChunkCount),
                       calls = [GetDocument (doc_id data), Summarize data] \<rparr>)))"

section \<open>The status poller (src/components/PdfUploader.tsx, src/pages/doc/[docId].tsx)\<close>

text \<open>
  \<^verbatim>\<open>delays[Math.min(attempt, delays.length - 1)]\<close>. The attempt index is a \<open>nat\<close>:
  polling starts at 0 and every call passes \<^verbatim>\<open>attempt + 1\<close> on.
\<close>

definition delays :: "nat list" where
  "delays = [1000, 2000, 4000, 8000, 10000]"

definition getBackoffDelay :: "nat \<Rightarrow> nat" where
  "getBackoffDelay attempt = delays ! (min attempt (length delays - 1))"

text \<open>
  \<^verbatim>\<open>interface Document\<close> of the two polling components, with the fields the poller
  reads. The status is the string the server sent.
\<close>

record Document =
  status :: string
  chunk_count :: int

text \<open>The outcome of the awaited status request: it resolved with a document, or it threw.\<close>

datatype probe = Resolved Document | Rejected

text \<open>
  The branch that the body of \<^verbatim>\<open>pollDocumentStatus\<close> takes once the request has settled,
  for the call with attempt index \<open>attempt\<close>. The two components have the same chain of
  tests; they differ in what each branch does to the component.
\<close>

datatype branch =
  Processed Document
  | ProcessingFailed
  | Continue nat nat
  | GiveUp

fun pollDocumentStatus_branch :: "probe \<Rightarrow> nat \<Rightarrow> branch" where
  "pollDocumentStatus_branch (Resolved doc) attempt =
     (if status doc = ''processed'' \<or> chunk_count doc > 0 then Processed doc
      else if status doc = ''error'' then ProcessingFailed
      else Continue (getBackoffDelay attempt) (attempt + 1))"
| "pollDocumentStatus_branch Rejected attempt =
     (if attempt < 10 then Continue (getBackoffDelay attempt) (attempt + 1)
      else GiveUp)"

text \<open>
  The state of the \<^verbatim>\<open>PdfUploader\<close> component that polling reads and writes.
  \<^verbatim>\<open>status\<close>, \<^verbatim>\<open>document\<close> and \<^verbatim>\<open>pollAttempt\<close> are its React state. \<open>timers\<close> holds
  every armed timer under the identifier \<^verbatim>\<open>setTimeout\<close> gave it, as the delay and the
  attempt index of the call it will make; \<open>next_timer\<close> is the identifier the next
  \<^verbatim>\<open>setTimeout\<close> returns; \<open>pollTimeoutRef\<close> is \<^verbatim>\<open>pollTimeoutRef.current\<close>, the
  identifier of the timer armed last (\<open>None\<close> for the initial \<^verbatim>\<open>null\<close>). \<open>in_flight\<close>
  holds the attempt index of every status request that has been sent and has not yet
  settled. Several polls can be alive at once, each with a timer or a request of its
  own, while the component has one \<^verbatim>\<open>pollTimeoutRef\<close>. \<open>onProcessed_log\<close> records the
  calls of the \<^verbatim>\<open>onProcessed\<close> callback and \<open>toasts\<close> the notifications; \<open>requests\<close>
  and \<open>waited\<close> count the status requests sent and the milliseconds of the timers that
  have fired.
\<close>

datatype ui_status = Idle | Uploading | Processing | ProcessedS | ErrorS

record PdfUploader =
  ui_status :: ui_status
  document :: "Document option"
  pollAttempt :: nat
  timers :: "(nat, nat \<times> nat) fmap"
  next_timer :: nat
  pollTimeoutRef :: "nat option"
  in_flight :: "nat multiset"
  onProcessed_log :: "Document list"
  toasts :: "string list"
  requests :: nat
  waited :: nat

text \<open>
  \<^verbatim>\<open>pollTimeoutRef.current = setTimeout(() => pollDocumentStatus(docId, attempt + 1), delay)\<close>
\<close>

definition arm :: "nat \<Rightarrow> nat \<Rightarrow> PdfUploader \<Rightarrow> PdfUploader" where
  "arm delay attempt c =
     c\<lparr>timers := fmupd (next_timer c) (delay, attempt) (timers c),
       pollTimeoutRef := Some (next_timer c),
       next_timer := next_timer c + 1\<rparr>"

text \<open>The part of \<^verbatim>\<open>pollDocumentStatus\<close> after the \<^verbatim>\<open>await\<close>, and its \<^verbatim>\<open>catch\<close>.\<close>

fun pollDocumentStatus :: "probe \<Rightarrow> nat \<Rightarrow> PdfUploader \<Rightarrow> PdfUploader" where
  "pollDocumentStatus (Resolved doc) attempt c =
     (let c = c\<lparr>document := Some doc\<rparr>
      in if status doc = ''processed'' \<or> chunk_count doc > 0 then
           c\<lparr>ui_status := ProcessedS,
             toasts := toasts c @ [''Document processed successfully!''],
             onProcessed_log := onProcessed_log c @ [doc]\<rparr>
         else if status doc = ''error'' then
           c\<lparr>ui_status := ErrorS, toasts := toasts c @ [''Document processing failed'']\<rparr>
         else
           arm (getBackoffDelay attempt) (attempt + 1) (c\<lparr>pollAttempt := attempt + 1\<rparr>))"
| "pollDocumentStatus Rejected attempt c =
     (if attempt < 10 then
        arm (getBackoffDelay attempt) (attempt + 1) (c\<lparr>pollAttempt := attempt + 1\<rparr>)
      else
        c\<lparr>ui_status := ErrorS, toasts := toasts c @ [''Failed to check document status'']\<rparr>)"

text \<open>
  The end of a successful \<^verbatim>\<open>handleUpload\<close>: the component enters \<^verbatim>\<open>'processing'\<close>
  and calls \<^verbatim>\<open>pollDocumentStatus(doc_id, 0)\<close>, which sends the first status request of
  a new poll. Whatever an earlier poll left armed or in flight stays so. The
  \<^verbatim>\<open>onCreated\<close> callback and the upload form's own state are left out.
\<close>

definition start_polling :: "PdfUploader \<Rightarrow> PdfUploader" where
  "start_polling c =
     c\<lparr>ui_status := Processing,
       toasts := toasts c @ [''Upload complete! Processing document...''],
       pollAttempt := 0, in_flight := add_mset 0 (in_flight c),
       requests := requests c + 1\<rparr>"

text \<open>
  \<^verbatim>\<open>handleCancel\<close>: \<^verbatim>\<open>if (pollTimeoutRef.current) clearTimeout(pollTimeoutRef.current)\<close>
  disarms the one timer whose identifier the ref holds (a browser's identifiers are
  positive, and the test is on the identifier). The abort controller it aborts belongs
  to the upload request; the status request is sent without a signal, so a request in
  flight stays in flight. The upload form's own state (\<^verbatim>\<open>uploadProgress\<close>,
  \<^verbatim>\<open>docId\<close>), which polling never reads, is left out.
\<close>

definition handleCancel :: "PdfUploader \<Rightarrow> PdfUploader" where
  "handleCancel c =
     c\<lparr>timers := (case pollTimeoutRef c of
                    None \<Rightarrow> timers c
                  | Some ident \<Rightarrow> if ident \<noteq> 0 then fmdrop ident (timers c) else timers c),
       ui_status := Idle, document := None, pollAttempt := 0\<rparr>"

text \<open>
  What can happen to the component: an armed timer fires (the scheduled call sends the
  next status request of its poll), a request in flight settles, the user cancels, or
  an upload completes and starts a poll.
\<close>

datatype event = TimerFires nat | Settles nat probe | Cancel | Uploaded

fun step :: "PdfUploader \<Rightarrow> event \<Rightarrow> PdfUploader" where
  "step c (TimerFires ident) =
     (case fmlookup (timers c) ident of
        None \<Rightarrow> c
      | Some (delay, attempt) \<Rightarrow>
          c\<lparr>timers := fmdrop ident (timers c), in_flight := add_mset attempt (in_flight c),
            requests := requests c + 1, waited := waited c + delay\<rparr>)"
| "step c (Settles attempt r) =
     (if attempt \<in># in_flight c
      then pollDocumentStatus r attempt (c\<lparr>in_flight := in_flight c - {#attempt#}\<rparr>)
      else c)"
| "step c Cancel = handleCancel c"
| "step c Uploaded = start_polling c"

text \<open>
  One poll left to run against a status source: \<open>src k\<close> is how its request with
  attempt index \<open>k\<close> settles. Each round settles the poll's request in flight, the one
  with index \<open>attempt\<close>, and lets the timer that this armed fire; \<open>n\<close> bounds the number
  of rounds, since the source may stay pending for ever.
\<close>

fun run_poll :: "(nat \<Rightarrow> probe) \<Rightarrow> nat \<Rightarrow> nat \<Rightarrow> PdfUploader \<Rightarrow> PdfUploader" where
  "run_poll src 0 attempt c = c"
| "run_poll src (Suc n) attempt c =
     (if attempt \<in># in_flight c then
        (case pollDocumentStatus_branch (src attempt) attempt of
           Continue delay next \<Rightarrow>
             run_poll src n next
               (step (step c (Settles attempt (src attempt))) (TimerFires (next_timer c)))
         | _ \<Rightarrow> step c (Settles attempt (src attempt)))
      else c)"

text \<open>The component as it is mounted.\<close>

definition mounted :: PdfUploader where
  "mounted = \<lparr> ui_status = Idle, document = None, pollAttempt = 0, timers = fmempty,
               next_timer = 1, pollTimeoutRef = None, in_flight = {#},
               onProcessed_log = [], toasts = [], requests = 0, waited = 0 \<rparr>"

text \<open>
  A component whose only poll activity is the timer that \<^verbatim>\<open>pollTimeoutRef\<close> holds: no
  status request is in flight, and no other timer is armed.
\<close>

definition only_ref_timer :: "PdfUploader \<Rightarrow> bool" where
  "only_ref_timer c =
     (in_flight c = {#}
      \<and> fBall (fmdom (timers c)) (\<lambda>ident. ident \<noteq> 0 \<and> pollTimeoutRef c = Some ident))"

text \<open>
  A document that is neither processed nor failed: none of the tests of
  \<^verbatim>\<open>pollDocumentStatus\<close> ends the poll on it.
\<close>

definition pending :: "Document \<Rightarrow> bool" where
  "pending doc =
     (status doc \<noteq> ''processed'' \<and> \<not> chunk_count doc > 0 \<and> status doc \<noteq> ''error'')"

text \<open>Two status sources: every request throws; every request finds the document in processing.\<close>

definition always_rejected :: "nat \<Rightarrow> probe" where
  "always_rejected k = Rejected"

definition always_processing :: "nat \<Rightarrow> probe" where
  "always_processing k = Resolved \<lparr>status = ''processing'', chunk_count = 0\<rparr>"

text \<open>A request for the full summary of a document, and two backends for it.\<close>

definition doc9_full :: SummarizeRequest where
  "doc9_full = \<lparr>doc_id = ''doc9'', req_scope = ''full''\<rparr>"

definition generator_S :: "SummarizeRequest \<Rightarrow> api_error + string" where
  "generator_S data = Inr ''S''"

definition generator_empty :: "SummarizeRequest \<Rightarrow> api_error + string" where
  "generator_empty data = Inr []"

text \<open>
  Addition without rounding: what the addition of doubles gives whenever the exact sum
  is itself a double, as the sum of two whole numbers below \<open>2\<^sup>5\<^sup>3\<close> is. The examples
  below add such numbers only.
\<close>

definition exact :: "real \<Rightarrow> js_number" where
  "exact r = Num r"

text \<open>
  The entry that \<^verbatim>\<open>setSummary\<close> builds, and the keys under which the assignment
  writes it: every key but \<^verbatim>\<open>__proto__\<close>, and \<^verbatim>\<open>__proto__\<close> too where the parsed object
  has it as an own property.
\<close>

definition stored_entry ::
  "(real \<Rightarrow> js_number) \<Rightarrow> int \<Rightarrow> string \<Rightarrow> string \<Rightarrow> string \<Rightarrow> string option
     \<Rightarrow> js_number option \<Rightarrow> int option \<Rightarrow> CachedSummary" where
  "stored_entry rnd now d s sc u ttl cc =
     \<lparr> summary = s, timestamp = now, docId = d, scope = sc,
       expiresAt = to_json (plus_now rnd now
          (case ttl of None \<Rightarrow> Num (of_int DEFAULT_TTL)
           | Some t \<Rightarrow> if number_truthy t then t else Num (of_int DEFAULT_TTL))),
       userId = u,
       chunkCount = (case cc of None \<Rightarrow> 0 | Some c \<Rightarrow> c) \<rparr>"

definition writable :: "SummaryCache \<Rightarrow> string \<Rightarrow> bool" where
  "writable cache key = (key \<noteq> ''__proto__'' \<or> fmlookup cache key \<noteq> None)"

text \<open>
  What \<^verbatim>\<open>getSummary\<close> returns where the key is no own property once the sweep is
  done: \<^verbatim>\<open>null\<close>, or the \<^verbatim>\<open>undefined\<close> summary of an inherited value.
\<close>

definition unowned :: "string \<Rightarrow> string option \<Rightarrow> int option \<Rightarrow> cached" where
  "unowned key u cur =
     (if key \<in> set inherited_keys \<and> \<not> truthy u \<and> cur = None then Undefined else Null)"

text \<open>
  \<^verbatim>\<open>setTimeout\<close> hands out positive identifiers in increasing order: in the component
  as mounted and in every state it reaches, each armed timer has an identifier below
  the next one.
\<close>

definition fresh_timers :: "PdfUploader \<Rightarrow> bool" where
  "fresh_timers c =
     (0 < next_timer c
      \<and> fBall (fmdom (timers c)) (\<lambda>ident. 0 < ident \<and> ident < next_timer c))"

section \<open>Properties of the cache\<close>

text \<open>
  For one document and scope, two owners get the same key only when they are equal or
  both falsy (absent, or the empty string).
\<close>

lemma key_differs_optional:
  "oa \<noteq> ob \<Longrightarrow> truthy oa \<or> truthy ob \<Longrightarrow>
     generateCacheKey d sc oa \<noteq> generateCacheKey d sc ob"
  by (cases oa; cases ob) (auto simp: generateCacheKey_def)

lemma key_differs:
  "a \<noteq> b \<Longrightarrow> generateCacheKey d sc (Some a) \<noteq> generateCacheKey d sc (Some b)"
  by (rule key_differs_optional) auto


lemma lookup_clean:
  "fmlookup (cleanExpiredEntries now cache) k =
     (case fmlookup cache k of None \<Rightarrow> None
      | Some e \<Rightarrow> if isExpired now e then None else Some e)"
  by (simp add: cleanExpiredEntries_def split: option.splits)


lemma lookup_set_other:
  "k \<noteq> generateCacheKey d sc u \<Longrightarrow>
     fmlookup (setSummary rnd now cache d s sc u ttl cc) k = fmlookup cache k"
  by (simp add: setSummary_def js_set_def Let_def)

text \<open>What a call without a TTL stores, under any key but an unowned \<^verbatim>\<open>__proto__\<close>.\<close>

lemma lookup_set_same:
  assumes "generateCacheKey d sc u \<noteq> ''__proto__'' \<or> fmlookup cache (generateCacheKey d sc u) \<noteq> None"
  shows "fmlookup (setSummary rnd now cache d s sc u None (Some c)) (generateCacheKey d sc u)
     = Some \<lparr>summary = s, timestamp = now, docId = d, scope = sc,
             expiresAt = to_json (rnd (of_int now + of_int DEFAULT_TTL)), userId = u,
             chunkCount = c\<rparr>"
  using assms by (auto simp: setSummary_def js_set_def Let_def)

text \<open>What \<^verbatim>\<open>getSummary\<close> returns, read off the stored object.\<close>

lemma fst_getSummary:
  "fst (getSummary now store d sc u cur) =
     (case fmlookup store (generateCacheKey d sc u) of
        None \<Rightarrow> unowned (generateCacheKey d sc u) u cur
      | Some e \<Rightarrow>
          if isExpired now e then unowned (generateCacheKey d sc u) u cur
          else if truthy u \<and> userId e \<noteq> u then Null
          else if cur \<noteq> None \<and> chunkCount e \<noteq> the cur then Null
          else Summary (summary e))"
  by (simp add: getSummary_def Let_def js_get_def lookup_clean unowned_def
      split: option.splits)




text \<open>\<^verbatim>\<open>setSummary\<close> as one assignment of the entry it builds.\<close>

lemma setSummary_js_set:
  "setSummary rnd now cache d s sc u ttl cc
     = js_set cache (generateCacheKey d sc u) (stored_entry rnd now d s sc u ttl cc)"
  by (simp add: setSummary_def stored_entry_def Let_def split: option.splits)

lemma lookup_set_key:
  "fmlookup (setSummary rnd now cache d s sc u ttl cc) (generateCacheKey d sc u)
     = (if writable cache (generateCacheKey d sc u)
        then Some (stored_entry rnd now d s sc u ttl cc) else None)"
  by (auto simp: setSummary_js_set js_set_def writable_def)

lemma setSummary_unwritable:
  "\<not> writable cache (generateCacheKey d sc u) \<Longrightarrow>
     setSummary rnd now cache d s sc u ttl cc = cache"
  by (simp add: setSummary_js_set js_set_def writable_def)

text \<open>
  A summary returned to a caller with a non-empty owner comes from an entry stored with
  that owner, whatever key it was found under.
\<close>

lemma getSummary_owner:
  assumes "truthy u" "fst (getSummary now store d sc u cur) = Summary p"
  shows "\<exists>e. fmlookup store (generateCacheKey d sc u) = Some e \<and> userId e = u \<and> summary e = p"
  using assms
  by (auto simp: fst_getSummary unowned_def split: option.splits if_splits)

text \<open>
  A write under one owner leaves the reads of another owner of the same document and
  scope alone, also when one of the two is absent.
\<close>

lemma owner_isolation_optional:
  assumes "oa \<noteq> ob" "truthy oa \<or> truthy ob"
  shows "fst (getSummary now2 (setSummary rnd now1 store d payload sc oa ttl cc) d sc ob cur)
         = fst (getSummary now2 store d sc ob cur)"
  using key_differs_optional[OF assms, of d sc]
  by (simp add: fst_getSummary lookup_set_other[OF not_sym])

text \<open>
  A write under one owner and a read, of any document and scope, by a caller with
  another, non-empty owner: the caller gets \<^verbatim>\<open>null\<close> or what it got before the write.
\<close>

lemma other_owner_read:
  assumes "oa \<noteq> Some b" "b \<noteq> []"
  shows "fst (getSummary now2 (setSummary rnd now1 store d payload sc oa ttl cc)
                d' sc' (Some b) cur) = Null
       \<or> fst (getSummary now2 (setSummary rnd now1 store d payload sc oa ttl cc)
                d' sc' (Some b) cur)
         = fst (getSummary now2 store d' sc' (Some b) cur)"
proof (cases "generateCacheKey d' sc' (Some b) = generateCacheKey d sc oa")
  case False
  then show ?thesis
    by (simp add: fst_getSummary lookup_set_other)
next
  case same: True
  show ?thesis
  proof (cases "writable store (generateCacheKey d sc oa)")
    case False
    then show ?thesis
      by (simp add: setSummary_unwritable)
  next
    case True
    have "userId (stored_entry rnd now1 d payload sc oa ttl cc) \<noteq> Some b"
      using assms(1) by (simp add: stored_entry_def)
    with True assms(2) have "fst (getSummary now2
        (setSummary rnd now1 store d payload sc oa ttl cc) d' sc' (Some b) cur) = Null"
      by (simp add: fst_getSummary same lookup_set_key unowned_def)
    then show ?thesis ..
  qed
qed

text \<open>
  C6, as the code has it. For distinct owner identifiers \<open>ownerA\<close> and \<open>ownerB\<close>,
  storing a summary of a document and scope under \<open>ownerA\<close> does not change what
  \<^verbatim>\<open>getSummary\<close> returns for that document and scope to \<open>ownerB\<close>; and when \<open>ownerB\<close>
  is not empty, whatever document and scope \<open>ownerB\<close> reads, it is handed \<^verbatim>\<open>null\<close> or
  what it was handed before the write, never the entry written under \<open>ownerA\<close>: a
  summary it is handed is that of an entry stored with \<open>ownerB\<close> as its owner, under
  another key than the one written.
\<close>

theorem C6_owner_isolation:
  assumes "ownerA \<noteq> ownerB"
  shows "fst (getSummary now2 (setSummary rnd now1 store d payload sc (Some ownerA) ttl cc)
                d sc (Some ownerB) cur)
         = fst (getSummary now2 store d sc (Some ownerB) cur)
       \<and> (ownerB \<noteq> [] \<longrightarrow>
            fst (getSummary now2 (setSummary rnd now1 store d payload sc (Some ownerA) ttl cc)
                   d' sc' (Some ownerB) cur) = Null
          \<or> fst (getSummary now2 (setSummary rnd now1 store d payload sc (Some ownerA) ttl cc)
                   d' sc' (Some ownerB) cur)
            = fst (getSummary now2 store d' sc' (Some ownerB) cur))
       \<and> (ownerB \<noteq> []
            \<and> fst (getSummary now2 (setSummary rnd now1 store d payload sc (Some ownerA) ttl cc)
                     d' sc' (Some ownerB) cur) = Summary p \<longrightarrow>
            (\<exists>e. fmlookup (setSummary rnd now1 store d payload sc (Some ownerA) ttl cc)
                    (generateCacheKey d' sc' (Some ownerB)) = Some e
                 \<and> userId e = Some ownerB \<and> summary e = p)
          \<and> generateCacheKey d' sc' (Some ownerB) \<noteq> generateCacheKey d sc (Some ownerA))"
proof (intro conjI impI)
  show "fst (getSummary now2 (setSummary rnd now1 store d payload sc (Some ownerA) ttl cc)
                d sc (Some ownerB) cur)
         = fst (getSummary now2 store d sc (Some ownerB) cur)"
    using key_differs[OF assms, of d sc]
    by (simp add: fst_getSummary lookup_set_other[OF not_sym])
next
  assume "ownerB \<noteq> []"
  moreover from assms have "Some ownerA \<noteq> Some ownerB" by simp
  ultimately show "fst (getSummary now2
        (setSummary rnd now1 store d payload sc (Some ownerA) ttl cc) d' sc' (Some ownerB) cur)
        = Null
      \<or> fst (getSummary now2
        (setSummary rnd now1 store d payload sc (Some ownerA) ttl cc) d' sc' (Some ownerB) cur)
        = fst (getSummary now2 store d' sc' (Some ownerB) cur)"
    by (rule other_owner_read[rotated])
next
  assume h: "ownerB \<noteq> []
      \<and> fst (getSummary now2 (setSummary rnd now1 store d payload sc (Some ownerA) ttl cc)
               d' sc' (Some ownerB) cur) = Summary p"
  then have t: "truthy (Some ownerB)"
    and r: "fst (getSummary now2 (setSummary rnd now1 store d payload sc (Some ownerA) ttl cc)
               d' sc' (Some ownerB) cur) = Summary p"
    by simp_all
  have ex: "\<exists>e. fmlookup (setSummary rnd now1 store d payload sc (Some ownerA) ttl cc)
                    (generateCacheKey d' sc' (Some ownerB)) = Some e
                 \<and> userId e = Some ownerB \<and> summary e = p"
    by (rule getSummary_owner[OF t r])
  then show "\<exists>e. fmlookup (setSummary rnd now1 store d payload sc (Some ownerA) ttl cc)
                    (generateCacheKey d' sc' (Some ownerB)) = Some e
                 \<and> userId e = Some ownerB \<and> summary e = p" .
  show "generateCacheKey d' sc' (Some ownerB) \<noteq> generateCacheKey d sc (Some ownerA)"
  proof
    assume same: "generateCacheKey d' sc' (Some ownerB) = generateCacheKey d sc (Some ownerA)"
    from ex obtain e where e: "fmlookup (setSummary rnd now1 store d payload sc (Some ownerA) ttl cc)
        (generateCacheKey d' sc' (Some ownerB)) = Some e" "userId e = Some ownerB"
      by blast
    from e(1) have "e = stored_entry rnd now1 d payload sc (Some ownerA) ttl cc"
      unfolding same by (simp add: lookup_set_key split: if_splits)
    then have "userId e = Some ownerA"
      by (simp add: stored_entry_def)
    with e(2) assms show False by simp
  qed
qed

text \<open>
  The statement of the specification fails for a caller whose owner is the empty string:
  the owner check is skipped for it, and the entry that owner u1 stored for document d
  and scope full has the key of document d and scope full_u1 without an owner, so that
  caller is handed it.
\<close>

theorem C6_counterexample:
  "''u1'' \<noteq> []
   \<and> fst (getSummary 10
            (setSummary exact 0 fmempty ''d'' ''text of u1'' ''full'' (Some ''u1'') None (Some 2))
            ''d'' ''full_u1'' (Some []) (Some 2)) = Summary ''text of u1''"
  by (simp add: fst_getSummary setSummary_js_set js_set_def stored_entry_def
      generateCacheKey_def isExpired_def exact_def DEFAULT_TTL_def)

text \<open>
  Two owners with a summary of the same document and scope each: owner B reads its own
  before and after owner A writes; and where the key of owner A's write is the key owner
  B reads under, owner B is handed nothing.
\<close>

theorem C6_owner_isolation_witness:
  "''ownerA'' \<noteq> ''ownerB''
   \<and> fst (getSummary 10
            (setSummary exact 5
               (setSummary exact 0 fmempty ''doc'' ''text of B'' ''full'' (Some ''ownerB'')
                  None (Some 2))
               ''doc'' ''text of A'' ''full'' (Some ''ownerA'') None (Some 2))
            ''doc'' ''full'' (Some ''ownerB'') (Some 2)) = Summary ''text of B''
   \<and> ''c_x'' \<noteq> ''x'' \<and> ''x'' \<noteq> []
   \<and> fst (getSummary 10
            (setSummary exact 5 fmempty ''a'' ''text of c_x'' ''b'' (Some ''c_x'') None (Some 2))
            ''a'' ''b_c'' (Some ''x'') (Some 2)) = Null"
proof -
  have d: "''ownerA'' \<noteq> ''ownerB''" "''c_x'' \<noteq> ''x''" "''x'' \<noteq> []"
    by simp_all
  have before: "fst (getSummary 10
      (setSummary exact 0 fmempty ''doc'' ''text of B'' ''full'' (Some ''ownerB'') None (Some 2))
      ''doc'' ''full'' (Some ''ownerB'') (Some 2)) = Summary ''text of B''"
    by (simp add: fst_getSummary setSummary_js_set js_set_def stored_entry_def
        generateCacheKey_def isExpired_def exact_def DEFAULT_TTL_def)
  have empty: "fst (getSummary 10 fmempty ''a'' ''b_c'' (Some ''x'') (Some 2)) = Null"
    by (simp add: fst_getSummary unowned_def)
  from C6_owner_isolation[OF d(1), of 10 exact 5
      "setSummary exact 0 fmempty ''doc'' ''text of B'' ''full'' (Some ''ownerB'') None (Some 2)"
      "''doc''" "''text of A''" "''full''" None "Some 2" "Some 2" "''doc''" "''full''"]
    before
  have one: "fst (getSummary 10
            (setSummary exact 5
               (setSummary exact 0 fmempty ''doc'' ''text of B'' ''full'' (Some ''ownerB'')
                  None (Some 2))
               ''doc'' ''text of A'' ''full'' (Some ''ownerA'') None (Some 2))
            ''doc'' ''full'' (Some ''ownerB'') (Some 2)) = Summary ''text of B''"
    by simp
  from C6_owner_isolation[OF d(2), of 10 exact 5 fmempty "''a''" "''text of c_x''" "''b''"
      None "Some 2" "Some 2" "''a''" "''b_c''"] d(3) empty
  have two: "fst (getSummary 10
            (setSummary exact 5 fmempty ''a'' ''text of c_x'' ''b'' (Some ''c_x'') None (Some 2))
            ''a'' ''b_c'' (Some ''x'') (Some 2)) = Null"
    by auto
  from d one two show ?thesis by blast
qed

text \<open>
  C8, as the code has it. For a stored entry, \<^verbatim>\<open>getSummary\<close> on its key returns no
  summary (and the sweep has dropped the entry) whenever the clock is past
  \<open>expiresAt\<close>, whatever the owner and the chunk count; at a clock up to and including
  \<open>expiresAt\<close>, with the owner and the chunk count matching, the summary is returned.
  What is returned in place of the summary is \<^verbatim>\<open>null\<close>, but for a key that
  \<^verbatim>\<open>Object.prototype\<close> defines too, read without owner and chunk count: there the swept
  object yields the inherited value, whose summary is \<^verbatim>\<open>undefined\<close>.
\<close>

theorem C8_expired_after_expiresAt:
  assumes "fmlookup store (generateCacheKey d sc u) = Some e"
  shows "(of_int now > to_number (expiresAt e) \<longrightarrow>
            fst (getSummary now store d sc u cur)
              = (if generateCacheKey d sc u \<in> set inherited_keys \<and> \<not> truthy u \<and> cur = None
                 then Undefined else Null)
          \<and> fmlookup (snd (getSummary now store d sc u cur)) (generateCacheKey d sc u) = None)
       \<and> (of_int now \<le> to_number (expiresAt e) \<and> userId e = u \<and> cur = Some (chunkCount e) \<longrightarrow>
            fst (getSummary now store d sc u cur) = Summary (summary e))"
proof (intro conjI impI)
  assume late: "of_int now > to_number (expiresAt e)"
  with assms show "fst (getSummary now store d sc u cur)
      = (if generateCacheKey d sc u \<in> set inherited_keys \<and> \<not> truthy u \<and> cur = None
         then Undefined else Null)"
    by (simp add: fst_getSummary isExpired_def unowned_def)
  from late assms have gone:
    "fmlookup (cleanExpiredEntries now store) (generateCacheKey d sc u) = None"
    by (simp add: lookup_clean isExpired_def)
  then show "fmlookup (snd (getSummary now store d sc u cur)) (generateCacheKey d sc u) = None"
    by (simp add: getSummary_def Let_def js_get_def removeSummary_def)
next
  assume "of_int now \<le> to_number (expiresAt e) \<and> userId e = u \<and> cur = Some (chunkCount e)"
  with assms show "fst (getSummary now store d sc u cur) = Summary (summary e)"
    by (simp add: fst_getSummary isExpired_def)
qed

text \<open>
  The statement of the specification fails when the clock equals \<open>expiresAt\<close>: an entry
  stored at time 0 with a TTL of 100 is still served at time 100.
\<close>

theorem C8_counterexample:
  "to_number (expiresAt (the (fmlookup
       (setSummary exact 0 fmempty ''doc42'' ''text'' ''full'' (Some ''u1'') (Some (Num 100))
          (Some 5))
       (generateCacheKey ''doc42'' ''full'' (Some ''u1''))))) \<le> 100
   \<and> fst (getSummary 100
            (setSummary exact 0 fmempty ''doc42'' ''text'' ''full'' (Some ''u1'') (Some (Num 100))
               (Some 5))
            ''doc42'' ''full'' (Some ''u1'') (Some 5)) = Summary ''text''"
  by (simp add: fst_getSummary setSummary_js_set js_set_def stored_entry_def
      generateCacheKey_def isExpired_def exact_def)

theorem C8_expired_after_expiresAt_witness:
  "fmlookup (setSummary exact 0 fmempty ''doc42'' ''text'' ''full'' (Some ''u1'') (Some (Num 100))
        (Some 5))
      (generateCacheKey ''doc42'' ''full'' (Some ''u1''))
     = Some \<lparr>summary = ''text'', timestamp = 0, docId = ''doc42'', scope = ''full'',
             expiresAt = Some 100, userId = Some ''u1'', chunkCount = 5\<rparr>
   \<and> fst (getSummary 101
            (setSummary exact 0 fmempty ''doc42'' ''text'' ''full'' (Some ''u1'') (Some (Num 100))
               (Some 5))
            ''doc42'' ''full'' (Some ''u1'') (Some 5)) = Null
   \<and> fst (getSummary 99
            (setSummary exact 0 fmempty ''doc42'' ''text'' ''full'' (Some ''u1'') (Some (Num 100))
               (Some 5))
            ''doc42'' ''full'' (Some ''u1'') (Some 5)) = Summary ''text''"
proof -
  let ?store = "setSummary exact 0 fmempty ''doc42'' ''text'' ''full'' (Some ''u1'')
      (Some (Num 100)) (Some 5)"
  let ?e = "\<lparr>summary = ''text'', timestamp = 0, docId = ''doc42'', scope = ''full'',
             expiresAt = Some 100, userId = Some ''u1'', chunkCount = 5\<rparr>"
  have h: "fmlookup ?store (generateCacheKey ''doc42'' ''full'' (Some ''u1'')) = Some ?e"
    by (simp add: setSummary_js_set js_set_def stored_entry_def generateCacheKey_def exact_def)
  from C8_expired_after_expiresAt[OF h, of 101 "Some 5"]
       C8_expired_after_expiresAt[OF h, of 99 "Some 5"] h
  show ?thesis by simp
qed




section \<open>Properties of serving a summary\<close>

lemma useSummarize_hit:
  assumes "fst (getSummary t store (doc_id data) (scope_or_full (req_scope data)) u (Some c))
      = Summary p"
    and "p \<noteq> []"
  shows "outcome (useSummarize rnd t t' store u (Inr c) summarize data)
           = Inr \<lparr>res_summary = p, fromCache = True, res_chunkCount = c,
                  action = ''loaded_from_cache''\<rparr>"
    and "calls (useSummarize rnd t t' store u (Inr c) summarize data)
           = [GetDocument (doc_id data)]"
  using assms by (simp_all add: useSummarize_def split_beta)

lemma useSummarize_miss:
  assumes "\<not> found (fst (getSummary t store (doc_id data) (scope_or_full (req_scope data))
      u (Some c)))"
    and "summarize data = Inr s"
  shows "outcome (useSummarize rnd t t' store u (Inr c) summarize data)
           = Inr \<lparr>res_summary = s, fromCache = False, res_chunkCount = c,
                  action = ''generated_new''\<rparr>"
    and "calls (useSummarize rnd t t' store u (Inr c) summarize data)
           = [GetDocument (doc_id data), Summarize data]"
    and "store_after (useSummarize rnd t t' store u (Inr c) summarize data)
           = setSummary rnd t'
               (snd (getSummary t store (doc_id data) (scope_or_full (req_scope data))
                       u (Some c)))
               (doc_id data) s (scope_or_full (req_scope data)) u None (Some c)"
  using assms by (simp_all add: useSummarize_def split_beta)

lemma getSummary_empty: "getSummary t fmempty d sc u (Some c) = (Null, fmempty)"
  by (simp add: getSummary_def cleanExpiredEntries_def js_get_def removeSummary_def Let_def)

text \<open>
  C5, as the code has it. When the cache holds, for the request's document, scope and
  owner, an entry that is not expired, has the current chunk count and a non-empty
  summary, \<^verbatim>\<open>useSummarize\<close> returns that summary marked as loaded from the cache and
  calls only \<^verbatim>\<open>getDocument\<close>, not the generator. When \<^verbatim>\<open>getSummary\<close> returns nothing
  (or an empty summary), the generator is called and its summary is returned marked as
  generated; where the key is not \<^verbatim>\<open>__proto__\<close> it is stored under the current chunk
  count with the default TTL. So from an empty cache, for a key other than
  \<^verbatim>\<open>__proto__\<close> and a generator that returns a non-empty summary, the first call
  returns it as generated and a second call with the same chunk count, made before the
  entry expires, returns the same summary from the cache without calling the
  generator. Under the key \<^verbatim>\<open>__proto__\<close> the first call leaves the cache empty.
\<close>

theorem C5_cache_or_generate:
  "(fmlookup store (generateCacheKey (doc_id data) (scope_or_full (req_scope data)) u) = Some e
      \<and> \<not> isExpired t e \<and> userId e = u \<and> chunkCount e = c \<and> summary e \<noteq> []
    \<longrightarrow> outcome (useSummarize rnd t t' store u (Inr c) summarize data)
          = Inr \<lparr>res_summary = summary e, fromCache = True, res_chunkCount = c,
                 action = ''loaded_from_cache''\<rparr>
      \<and> calls (useSummarize rnd t t' store u (Inr c) summarize data)
          = [GetDocument (doc_id data)])
 \<and> (\<not> found (fst (getSummary t store (doc_id data) (scope_or_full (req_scope data)) u (Some c)))
      \<and> summarize data = Inr s
    \<longrightarrow> outcome (useSummarize rnd t t' store u (Inr c) summarize data)
          = Inr \<lparr>res_summary = s, fromCache = False, res_chunkCount = c,
                 action = ''generated_new''\<rparr>
      \<and> calls (useSummarize rnd t t' store u (Inr c) summarize data)
          = [GetDocument (doc_id data), Summarize data]
      \<and> (generateCacheKey (doc_id data) (scope_or_full (req_scope data)) u \<noteq> ''__proto__''
          \<longrightarrow> fmlookup (store_after (useSummarize rnd t t' store u (Inr c) summarize data))
                (generateCacheKey (doc_id data) (scope_or_full (req_scope data)) u)
              = Some \<lparr>summary = s, timestamp = t', docId = doc_id data,
                      scope = scope_or_full (req_scope data),
                      expiresAt = to_json (rnd (of_int t' + of_int DEFAULT_TTL)),
                      userId = u, chunkCount = c\<rparr>))
 \<and> (summarize data = Inr s \<and> s \<noteq> []
      \<and> generateCacheKey (doc_id data) (scope_or_full (req_scope data)) u \<noteq> ''__proto__''
      \<and> of_int t2 \<le> to_number (to_json (rnd (of_int t' + of_int DEFAULT_TTL)))
    \<longrightarrow> outcome (useSummarize rnd t t' fmempty u (Inr c) summarize data)
          = Inr \<lparr>res_summary = s, fromCache = False, res_chunkCount = c,
                 action = ''generated_new''\<rparr>
      \<and> outcome (useSummarize rnd t2 t2'
                   (store_after (useSummarize rnd t t' fmempty u (Inr c) summarize data))
                   u (Inr c) summarize data)
          = Inr \<lparr>res_summary = s, fromCache = True, res_chunkCount = c,
                 action = ''loaded_from_cache''\<rparr>
      \<and> calls (useSummarize rnd t2 t2'
                   (store_after (useSummarize rnd t t' fmempty u (Inr c) summarize data))
                   u (Inr c) summarize data)
          = [GetDocument (doc_id data)])
 \<and> (summarize data = Inr s
      \<and> generateCacheKey (doc_id data) (scope_or_full (req_scope data)) u = ''__proto__''
    \<longrightarrow> store_after (useSummarize rnd t t' fmempty u (Inr c) summarize data) = fmempty)"
proof (intro conjI impI)
  assume h: "fmlookup store (generateCacheKey (doc_id data) (scope_or_full (req_scope data)) u)
        = Some e
      \<and> \<not> isExpired t e \<and> userId e = u \<and> chunkCount e = c \<and> summary e \<noteq> []"
  then have g: "fst (getSummary t store (doc_id data) (scope_or_full (req_scope data)) u (Some c))
      = Summary (summary e)"
    by (simp add: fst_getSummary)
  from h have ne: "summary e \<noteq> []" by simp
  show "outcome (useSummarize rnd t t' store u (Inr c) summarize data)
          = Inr \<lparr>res_summary = summary e, fromCache = True, res_chunkCount = c,
                 action = ''loaded_from_cache''\<rparr>"
    by (rule useSummarize_hit(1)[OF g ne])
  show "calls (useSummarize rnd t t' store u (Inr c) summarize data) = [GetDocument (doc_id data)]"
    by (rule useSummarize_hit(2)[OF g ne])
next
  assume h: "\<not> found (fst (getSummary t store (doc_id data) (scope_or_full (req_scope data))
        u (Some c)))
      \<and> summarize data = Inr s"
  then have m: "\<not> found (fst (getSummary t store (doc_id data)
        (scope_or_full (req_scope data)) u (Some c)))"
    and g: "summarize data = Inr s" by simp_all
  note miss = useSummarize_miss[where summarize = summarize and data = data, OF m g]
  show "outcome (useSummarize rnd t t' store u (Inr c) summarize data)
          = Inr \<lparr>res_summary = s, fromCache = False, res_chunkCount = c,
                 action = ''generated_new''\<rparr>"
    by (rule miss(1))
  show "calls (useSummarize rnd t t' store u (Inr c) summarize data)
          = [GetDocument (doc_id data), Summarize data]"
    by (rule miss(2))
  assume "generateCacheKey (doc_id data) (scope_or_full (req_scope data)) u \<noteq> ''__proto__''"
  then show "fmlookup (store_after (useSummarize rnd t t' store u (Inr c) summarize data))
            (generateCacheKey (doc_id data) (scope_or_full (req_scope data)) u)
          = Some \<lparr>summary = s, timestamp = t', docId = doc_id data,
                  scope = scope_or_full (req_scope data),
                  expiresAt = to_json (rnd (of_int t' + of_int DEFAULT_TTL)),
                  userId = u, chunkCount = c\<rparr>"
    unfolding miss(3) by (simp add: lookup_set_same)
next
  assume h: "summarize data = Inr s \<and> s \<noteq> []
      \<and> generateCacheKey (doc_id data) (scope_or_full (req_scope data)) u \<noteq> ''__proto__''
      \<and> of_int t2 \<le> to_number (to_json (rnd (of_int t' + of_int DEFAULT_TTL)))"
  then have g: "summarize data = Inr s" and ne: "s \<noteq> []"
    and key: "generateCacheKey (doc_id data) (scope_or_full (req_scope data)) u \<noteq> ''__proto__''"
    and fresh: "of_int t2 \<le> to_number (to_json (rnd (of_int t' + of_int DEFAULT_TTL)))"
    by simp_all
  let ?d = "doc_id data" and ?sc = "scope_or_full (req_scope data)"
  have m: "\<not> found (fst (getSummary t fmempty ?d ?sc u (Some c)))"
    by (simp add: getSummary_empty)
  note miss = useSummarize_miss[where summarize = summarize and data = data, OF m g]
  let ?store1 = "store_after (useSummarize rnd t t' fmempty u (Inr c) summarize data)"
  have s1: "?store1 = setSummary rnd t' fmempty ?d s ?sc u None (Some c)"
    unfolding miss(3) by (simp add: getSummary_empty)
  have hit: "fst (getSummary t2 ?store1 ?d ?sc u (Some c)) = Summary s"
    unfolding s1 using fresh key
    by (simp add: fst_getSummary lookup_set_same isExpired_def)
  show "outcome (useSummarize rnd t t' fmempty u (Inr c) summarize data)
          = Inr \<lparr>res_summary = s, fromCache = False, res_chunkCount = c,
                 action = ''generated_new''\<rparr>"
    by (rule miss(1))
  show "outcome (useSummarize rnd t2 t2' ?store1 u (Inr c) summarize data)
          = Inr \<lparr>res_summary = s, fromCache = True, res_chunkCount = c,
                 action = ''loaded_from_cache''\<rparr>"
    by (rule useSummarize_hit(1)[OF hit ne])
  show "calls (useSummarize rnd t2 t2' ?store1 u (Inr c) summarize data)
          = [GetDocument (doc_id data)]"
    by (rule useSummarize_hit(2)[OF hit ne])
next
  assume h: "summarize data = Inr s
      \<and> generateCacheKey (doc_id data) (scope_or_full (req_scope data)) u = ''__proto__''"
  then have g: "summarize data = Inr s"
    and key: "generateCacheKey (doc_id data) (scope_or_full (req_scope data)) u = ''__proto__''"
    by simp_all
  have m: "\<not> found (fst (getSummary t fmempty (doc_id data) (scope_or_full (req_scope data))
      u (Some c)))"
    by (simp add: getSummary_empty)
  note miss = useSummarize_miss[where summarize = summarize and data = data, OF m g]
  show "store_after (useSummarize rnd t t' fmempty u (Inr c) summarize data) = fmempty"
    unfolding miss(3)
    by (simp add: getSummary_empty setSummary_unwritable writable_def key)
qed

text \<open>
  The statement of the specification fails for an empty summary, which
  \<^verbatim>\<open>if (cachedSummary)\<close> takes for a miss: after a first call whose generator returned
  the empty string the cache holds a valid entry (\<^verbatim>\<open>isCached\<close> is true), and the second
  call calls the generator again and reports a generated summary.
\<close>

theorem C5_counterexample:
  "isCached 1
      (store_after (useSummarize exact 0 0 fmempty (Some ''u1'') (Inr 3) generator_empty doc9_full))
      ''doc9'' ''full'' (Some ''u1'') (Some 3)
   \<and> calls (useSummarize exact 1 1
        (store_after (useSummarize exact 0 0 fmempty (Some ''u1'') (Inr 3) generator_empty
           doc9_full))
        (Some ''u1'') (Inr 3) generator_empty doc9_full)
      = [GetDocument ''doc9'', Summarize doc9_full]
   \<and> outcome (useSummarize exact 1 1
        (store_after (useSummarize exact 0 0 fmempty (Some ''u1'') (Inr 3) generator_empty
           doc9_full))
        (Some ''u1'') (Inr 3) generator_empty doc9_full)
      = Inr \<lparr>res_summary = [], fromCache = False, res_chunkCount = 3,
             action = ''generated_new''\<rparr>"
proof -
  have m: "\<not> found (fst (getSummary 0 fmempty (doc_id doc9_full)
      (scope_or_full (req_scope doc9_full)) (Some ''u1'') (Some 3)))"
    by (simp add: getSummary_empty)
  have g: "generator_empty doc9_full = Inr []"
    by (simp add: generator_empty_def)
  have key: "generateCacheKey ''doc9'' ''full'' (Some ''u1'') \<noteq> ''__proto__''"
    by (simp add: generateCacheKey_def)
  let ?store1 = "store_after (useSummarize exact 0 0 fmempty (Some ''u1'') (Inr 3)
      generator_empty doc9_full)"
  have s1: "?store1 = setSummary exact 0 fmempty ''doc9'' [] ''full'' (Some ''u1'') None (Some 3)"
    unfolding useSummarize_miss(3)[where summarize = generator_empty and data = doc9_full,
        OF m g]
    by (simp add: getSummary_empty doc9_full_def scope_or_full_def)
  have look: "fst (getSummary 1 ?store1 ''doc9'' ''full'' (Some ''u1'') (Some 3)) = Summary []"
    unfolding s1 using key
    by (simp add: fst_getSummary lookup_set_same isExpired_def DEFAULT_TTL_def exact_def)
  then have m2: "\<not> found (fst (getSummary 1 ?store1 (doc_id doc9_full)
      (scope_or_full (req_scope doc9_full)) (Some ''u1'') (Some 3)))"
    by (simp add: doc9_full_def scope_or_full_def)
  from look have c: "isCached 1 ?store1 ''doc9'' ''full'' (Some ''u1'') (Some 3)"
    by (simp add: isCached_def)
  from useSummarize_miss(1)[where summarize = generator_empty and data = doc9_full,
      OF m2 g, of exact 1]
    useSummarize_miss(2)[where summarize = generator_empty and data = doc9_full,
      OF m2 g, of exact 1] c
  show ?thesis
    by (simp add: doc9_full_def)
qed

text \<open>
  The third scenario of the specification, for doc9 and a generator returning S: the
  first call generates, the second is served from the cache; a call on the store the
  first one left finds the entry valid; and for document \<open>_\<close> and scope \<open>proto__\<close>
  without an owner the first call leaves the cache empty.
\<close>

theorem C5_cache_or_generate_witness:
  "generator_S doc9_full = Inr ''S''
   \<and> generateCacheKey (doc_id doc9_full) (scope_or_full (req_scope doc9_full)) (Some ''u1'')
       \<noteq> ''__proto__''
   \<and> outcome (useSummarize exact 0 5 fmempty (Some ''u1'') (Inr 3) generator_S doc9_full)
       = Inr \<lparr>res_summary = ''S'', fromCache = False, res_chunkCount = 3,
              action = ''generated_new''\<rparr>
   \<and> calls (useSummarize exact 0 5 fmempty (Some ''u1'') (Inr 3) generator_S doc9_full)
       = [GetDocument ''doc9'', Summarize doc9_full]
   \<and> outcome (useSummarize exact 10 15
         (store_after (useSummarize exact 0 5 fmempty (Some ''u1'') (Inr 3) generator_S doc9_full))
         (Some ''u1'') (Inr 3) generator_S doc9_full)
       = Inr \<lparr>res_summary = ''S'', fromCache = True, res_chunkCount = 3,
              action = ''loaded_from_cache''\<rparr>
   \<and> calls (useSummarize exact 10 15
         (store_after (useSummarize exact 0 5 fmempty (Some ''u1'') (Inr 3) generator_S doc9_full))
         (Some ''u1'') (Inr 3) generator_S doc9_full)
       = [GetDocument ''doc9'']
   \<and> outcome (useSummarize exact 20 25
         (setSummary exact 5 fmempty ''doc9'' ''S'' ''full'' (Some ''u1'') None (Some 3))
         (Some ''u1'') (Inr 3) generator_S doc9_full)
       = Inr \<lparr>res_summary = ''S'', fromCache = True, res_chunkCount = 3,
              action = ''loaded_from_cache''\<rparr>
   \<and> generateCacheKey ''_'' (scope_or_full ''proto__'') None = ''__proto__''
   \<and> store_after (useSummarize exact 0 5 fmempty None (Inr 3) generator_S
         \<lparr>doc_id = ''_'', req_scope = ''proto__''\<rparr>) = fmempty"
proof -
  let ?e = "\<lparr>summary = ''S'', timestamp = 5, docId = ''doc9'', scope = ''full'',
             expiresAt = Some (of_int 5 + of_int DEFAULT_TTL), userId = Some ''u1'',
             chunkCount = 3\<rparr>"
  let ?store = "setSummary exact 5 fmempty ''doc9'' ''S'' ''full'' (Some ''u1'') None (Some 3)"
  let ?proto = "\<lparr>doc_id = ''_'', req_scope = ''proto__''\<rparr>"
  have g: "generator_S doc9_full = Inr ''S''" "generator_S ?proto = Inr ''S''"
    by (simp_all add: generator_S_def)
  have key: "generateCacheKey (doc_id doc9_full) (scope_or_full (req_scope doc9_full))
      (Some ''u1'') \<noteq> ''__proto__''"
    by (simp add: doc9_full_def scope_or_full_def generateCacheKey_def)
  have pkey: "generateCacheKey ''_'' (scope_or_full ''proto__'') None = ''__proto__''"
    by (simp add: scope_or_full_def generateCacheKey_def)
  have fresh: "of_int 10 \<le> to_number (to_json (exact (of_int 5 + of_int DEFAULT_TTL)))"
    by (simp add: DEFAULT_TTL_def exact_def)
  have miss: "\<not> found (fst (getSummary 0 fmempty (doc_id doc9_full)
      (scope_or_full (req_scope doc9_full)) (Some ''u1'') (Some 3)))"
    by (simp add: getSummary_empty)
  have entry: "fmlookup ?store
      (generateCacheKey (doc_id doc9_full) (scope_or_full (req_scope doc9_full)) (Some ''u1''))
        = Some ?e"
    using key
    by (simp add: doc9_full_def scope_or_full_def lookup_set_same exact_def)
  have valid: "\<not> isExpired 20 ?e"
    by (simp add: isExpired_def DEFAULT_TTL_def)
  note first = C5_cache_or_generate[where store = fmempty and data = doc9_full
      and u = "Some ''u1''" and t = 0 and t' = 5 and c = 3 and summarize = generator_S
      and s = "''S''" and ?t2.0 = 10 and t2' = 15 and e = ?e and rnd = exact]
  note again = C5_cache_or_generate[where store = ?store and data = doc9_full
      and u = "Some ''u1''" and t = 20 and t' = 25 and c = 3 and summarize = generator_S
      and s = "''S''" and ?t2.0 = 10 and t2' = 15 and e = ?e and rnd = exact]
  note proto = C5_cache_or_generate[where store = fmempty and data = ?proto
      and u = None and t = 0 and t' = 5 and c = 3 and summarize = generator_S
      and s = "''S''" and ?t2.0 = 10 and t2' = 15 and e = ?e and rnd = exact]
  from first g(1) key fresh miss
  have a: "outcome (useSummarize exact 0 5 fmempty (Some ''u1'') (Inr 3) generator_S doc9_full)
       = Inr \<lparr>res_summary = ''S'', fromCache = False, res_chunkCount = 3,
              action = ''generated_new''\<rparr>"
    "calls (useSummarize exact 0 5 fmempty (Some ''u1'') (Inr 3) generator_S doc9_full)
       = [GetDocument ''doc9'', Summarize doc9_full]"
    "outcome (useSummarize exact 10 15
         (store_after (useSummarize exact 0 5 fmempty (Some ''u1'') (Inr 3) generator_S doc9_full))
         (Some ''u1'') (Inr 3) generator_S doc9_full)
       = Inr \<lparr>res_summary = ''S'', fromCache = True, res_chunkCount = 3,
              action = ''loaded_from_cache''\<rparr>"
    "calls (useSummarize exact 10 15
         (store_after (useSummarize exact 0 5 fmempty (Some ''u1'') (Inr 3) generator_S doc9_full))
         (Some ''u1'') (Inr 3) generator_S doc9_full)
       = [GetDocument ''doc9'']"
    by (simp_all add: doc9_full_def)
  from again entry valid
  have b: "outcome (useSummarize exact 20 25 ?store (Some ''u1'') (Inr 3) generator_S doc9_full)
       = Inr \<lparr>res_summary = ''S'', fromCache = True, res_chunkCount = 3,
              action = ''loaded_from_cache''\<rparr>"
    by simp
  from proto g(2) pkey
  have c: "store_after (useSummarize exact 0 5 fmempty None (Inr 3) generator_S ?proto) = fmempty"
    by simp
  from g(1) key a b pkey c show ?thesis by blast
qed

section \<open>Properties of the status poller\<close>

lemma getBackoffDelay_in_table:
  "getBackoffDelay n \<in> set delays"
proof -
  have "min n (length delays - 1) < length delays"
    by (simp add: delays_def)
  then show ?thesis
    unfolding getBackoffDelay_def by (rule nth_mem)
qed

lemma getBackoffDelay_ge: "1000 \<le> getBackoffDelay n"
proof -
  have "\<forall>x\<in>set delays. 1000 \<le> x"
    by (simp add: delays_def)
  with getBackoffDelay_in_table[of n] show ?thesis by blast
qed

text \<open>
  C7. For every attempt index \<open>n\<close> the backoff delay is entry \<open>min n 4\<close> of the table
  1000, 2000, 4000, 8000, 10000; attempts 0 to 5 wait 1000, 2000, 4000, 8000, 10000 and
  10000 ms, and no attempt waits more than 10000 ms.
\<close>

theorem C7_backoff_table:
  "getBackoffDelay n = [1000, 2000, 4000, 8000, 10000] ! (min n 4)
   \<and> map getBackoffDelay [0, 1, 2, 3, 4, 5] = [1000, 2000, 4000, 8000, 10000, 10000]
   \<and> getBackoffDelay n \<le> 10000"
proof -
  have len: "length delays - 1 = 4"
    by (simp add: delays_def)
  have tab: "getBackoffDelay n = [1000, 2000, 4000, 8000, 10000] ! (min n 4)"
    unfolding getBackoffDelay_def len by (simp only: delays_def)
  have seq: "map getBackoffDelay [0, 1, 2, 3, 4, 5] = [1000, 2000, 4000, 8000, 10000, 10000]"
    by (simp add: getBackoffDelay_def delays_def)
  have "\<forall>x\<in>set delays. x \<le> 10000"
    by (simp add: delays_def)
  with getBackoffDelay_in_table[of n] have cap: "getBackoffDelay n \<le> 10000"
    by blast
  from tab seq cap show ?thesis by blast
qed

lemma start_polling_simps:
  "in_flight (start_polling c) = add_mset 0 (in_flight c)"
  "ui_status (start_polling c) = Processing"
  "requests (start_polling c) = requests c + 1"
  "timers (start_polling c) = timers c"
  "next_timer (start_polling c) = next_timer c"
  "pollTimeoutRef (start_polling c) = pollTimeoutRef c"
  "onProcessed_log (start_polling c) = onProcessed_log c"
  "waited (start_polling c) = waited c"
  by (simp_all add: start_polling_def)

lemma arm_simps:
  "timers (arm delay attempt c) = fmupd (next_timer c) (delay, attempt) (timers c)"
  "pollTimeoutRef (arm delay attempt c) = Some (next_timer c)"
  "next_timer (arm delay attempt c) = next_timer c + 1"
  "ui_status (arm delay attempt c) = ui_status c"
  "in_flight (arm delay attempt c) = in_flight c"
  "onProcessed_log (arm delay attempt c) = onProcessed_log c"
  "toasts (arm delay attempt c) = toasts c"
  "requests (arm delay attempt c) = requests c"
  "waited (arm delay attempt c) = waited c"
  "document (arm delay attempt c) = document c"
  "pollAttempt (arm delay attempt c) = pollAttempt c"
  by (simp_all add: arm_def)

text \<open>What the component does with a settled request follows the branch taken.\<close>

lemma pollDocumentStatus_follows_branch:
  "ui_status (pollDocumentStatus r a c) =
     (case pollDocumentStatus_branch r a of
        Processed doc \<Rightarrow> ProcessedS
      | ProcessingFailed \<Rightarrow> ErrorS
      | Continue delay next \<Rightarrow> ui_status c
      | GiveUp \<Rightarrow> ErrorS)"
  "timers (pollDocumentStatus r a c) =
     (case pollDocumentStatus_branch r a of
        Continue delay next \<Rightarrow> fmupd (next_timer c) (delay, next) (timers c)
      | _ \<Rightarrow> timers c)"
  "onProcessed_log (pollDocumentStatus r a c) =
     (case pollDocumentStatus_branch r a of
        Processed doc \<Rightarrow> onProcessed_log c @ [doc]
      | _ \<Rightarrow> onProcessed_log c)"
  by (cases r; simp add: Let_def arm_simps)+




subsection \<open>A poll left to run\<close>

text \<open>No timer is armed in the first map that is not armed in the second.\<close>

lemma fmsubset_same: "fmsubset m m"
  by (simp add: fmsubset_alt_def fmpred_iff)

lemma fmsubset_drop: "fmsubset (fmdrop k m) m"
  by (auto simp: fmsubset_alt_def fmpred_iff split: if_splits)

lemma fmsubset_chain: "fmsubset l m \<Longrightarrow> fmsubset m n \<Longrightarrow> fmsubset l n"
  by (auto simp: fmsubset_alt_def fmpred_iff)

text \<open>One round on a request that throws before the budget is used up.\<close>

lemma round_rejected:
  assumes "a \<in># in_flight c" "a < 10"
  shows "in_flight (step (step c (Settles a Rejected)) (TimerFires (next_timer c)))
           = add_mset (a + 1) (in_flight c - {#a#})"
    "ui_status (step (step c (Settles a Rejected)) (TimerFires (next_timer c))) = ui_status c"
    "requests (step (step c (Settles a Rejected)) (TimerFires (next_timer c))) = requests c + 1"
    "timers (step (step c (Settles a Rejected)) (TimerFires (next_timer c)))
           = fmdrop (next_timer c) (timers c)"
  using assms by (simp_all add: arm_simps fmdrop_fmupd_same)

lemma run_rejected:
  "a \<in># in_flight c \<Longrightarrow> a + n \<le> 10 \<Longrightarrow>
     in_flight (run_poll always_rejected n a c) = add_mset (a + n) (in_flight c - {#a#})
   \<and> ui_status (run_poll always_rejected n a c) = ui_status c
   \<and> requests (run_poll always_rejected n a c) = requests c + n
   \<and> fmsubset (timers (run_poll always_rejected n a c)) (timers c)"
proof (induction n arbitrary: c a)
  case 0
  then show ?case by (simp add: fmsubset_same)
next
  case (Suc n)
  let ?c1 = "step (step c (Settles a Rejected)) (TimerFires (next_timer c))"
  from Suc.prems have a: "a < 10" by simp
  have run: "run_poll always_rejected (Suc n) a c = run_poll always_rejected n (Suc a) ?c1"
    using Suc.prems(1) a by (simp add: always_rejected_def)
  note r = round_rejected[OF Suc.prems(1) a]
  have inf: "Suc a \<in># in_flight ?c1"
    unfolding r(1) by simp
  from Suc.prems have "Suc a + n \<le> 10" by simp
  from Suc.IH[OF inf this]
  have ih: "in_flight (run_poll always_rejected n (Suc a) ?c1)
        = add_mset (Suc a + n) (in_flight ?c1 - {#Suc a#})"
    "ui_status (run_poll always_rejected n (Suc a) ?c1) = ui_status ?c1"
    "requests (run_poll always_rejected n (Suc a) ?c1) = requests ?c1 + n"
    "fmsubset (timers (run_poll always_rejected n (Suc a) ?c1)) (timers ?c1)"
    by simp_all
  have sub: "fmsubset (timers ?c1) (timers c)"
    unfolding r(4) by (rule fmsubset_drop)
  from ih(4) sub have "fmsubset (timers (run_poll always_rejected n (Suc a) ?c1)) (timers c)"
    by (rule fmsubset_chain)
  with ih(1,2,3) show ?case
    unfolding run r(1,2,3) by simp
qed

text \<open>
  The rest of a poll whose requests all throw, from the request with index \<open>a\<close> on:
  once it has had more rounds than it has retries left, it has given up.
\<close>

lemma run_rejected_done:
  "a \<in># in_flight c \<Longrightarrow> a \<le> 10 \<Longrightarrow> 10 - a < n \<Longrightarrow>
     ui_status (run_poll always_rejected n a c) = ErrorS
   \<and> in_flight (run_poll always_rejected n a c) = in_flight c - {#a#}
   \<and> requests (run_poll always_rejected n a c) = requests c + (10 - a)
   \<and> fmsubset (timers (run_poll always_rejected n a c)) (timers c)"
proof (induction n arbitrary: c a)
  case 0
  then show ?case by simp
next
  case (Suc n)
  show ?case
  proof (cases "a < 10")
    case False
    with Suc.prems have "a = 10" by simp
    with Suc.prems(1) show ?thesis
      by (simp add: always_rejected_def fmsubset_same)
  next
    case a: True
    let ?c1 = "step (step c (Settles a Rejected)) (TimerFires (next_timer c))"
    have run: "run_poll always_rejected (Suc n) a c = run_poll always_rejected n (Suc a) ?c1"
      using Suc.prems(1) a by (simp add: always_rejected_def)
    note r = round_rejected[OF Suc.prems(1) a]
    have inf: "Suc a \<in># in_flight ?c1"
      unfolding r(1) by simp
    from a Suc.prems have le: "Suc a \<le> 10" and left: "10 - Suc a < n"
      by simp_all
    from Suc.IH[OF inf le left]
    have ih: "ui_status (run_poll always_rejected n (Suc a) ?c1) = ErrorS"
      "in_flight (run_poll always_rejected n (Suc a) ?c1) = in_flight ?c1 - {#Suc a#}"
      "requests (run_poll always_rejected n (Suc a) ?c1) = requests ?c1 + (10 - Suc a)"
      "fmsubset (timers (run_poll always_rejected n (Suc a) ?c1)) (timers ?c1)"
      by simp_all
    have sub: "fmsubset (timers ?c1) (timers c)"
      unfolding r(4) by (rule fmsubset_drop)
    from ih(4) sub have "fmsubset (timers (run_poll always_rejected n (Suc a) ?c1)) (timers c)"
      by (rule fmsubset_chain)
    with ih(1,2,3) a show ?thesis
      unfolding run r(1,3) by simp
  qed
qed

text \<open>
  C9. When every status request of a poll throws, the poll sends exactly 11 requests,
  with attempt indices 0 to 10: after \<open>n < 11\<close> of them have thrown the component is
  still processing and request \<open>n\<close> is in flight; once the request with index 10 has
  thrown the component is in error, the poll has nothing in flight and has left no timer
  armed, and no further request is ever sent. In both components the catch gives up
  exactly at attempt indices of 10 and more.
\<close>

theorem C9_all_rejected:
  "(n < 11 \<longrightarrow>
      ui_status (run_poll always_rejected n 0 (start_polling c)) = Processing
    \<and> in_flight (run_poll always_rejected n 0 (start_polling c)) = add_mset n (in_flight c)
    \<and> requests (run_poll always_rejected n 0 (start_polling c)) = requests c + n + 1)
 \<and> (11 \<le> n \<longrightarrow>
      ui_status (run_poll always_rejected n 0 (start_polling c)) = ErrorS
    \<and> in_flight (run_poll always_rejected n 0 (start_polling c)) = in_flight c
    \<and> fmsubset (timers (run_poll always_rejected n 0 (start_polling c))) (timers c)
    \<and> requests (run_poll always_rejected n 0 (start_polling c)) = requests c + 11)
 \<and> (pollDocumentStatus_branch Rejected a = GiveUp \<longleftrightarrow> 10 \<le> a)"
proof (intro conjI impI)
  have first: "0 \<in># in_flight (start_polling c)"
    by (simp add: start_polling_simps)
  {
    assume "n < 11"
    then have "0 + n \<le> 10" by simp
    from run_rejected[OF first this]
    show "ui_status (run_poll always_rejected n 0 (start_polling c)) = Processing"
      "in_flight (run_poll always_rejected n 0 (start_polling c)) = add_mset n (in_flight c)"
      "requests (run_poll always_rejected n 0 (start_polling c)) = requests c + n + 1"
      by (simp_all add: start_polling_simps)
  }
  {
    assume "11 \<le> n"
    then have "10 - 0 < n" by simp
    from run_rejected_done[OF first _ this]
    show "ui_status (run_poll always_rejected n 0 (start_polling c)) = ErrorS"
      "in_flight (run_poll always_rejected n 0 (start_polling c)) = in_flight c"
      "fmsubset (timers (run_poll always_rejected n 0 (start_polling c))) (timers c)"
      "requests (run_poll always_rejected n 0 (start_polling c)) = requests c + 11"
      by (simp_all add: start_polling_simps)
  }
qed (auto split: if_splits)

theorem C9_all_rejected_witness:
  "(10::nat) < 11
   \<and> ui_status (run_poll always_rejected 10 0 (start_polling mounted)) = Processing
   \<and> in_flight (run_poll always_rejected 10 0 (start_polling mounted)) = {#10#}
   \<and> requests (run_poll always_rejected 10 0 (start_polling mounted)) = 11
   \<and> (11::nat) \<le> 11
   \<and> ui_status (run_poll always_rejected 11 0 (start_polling mounted)) = ErrorS
   \<and> in_flight (run_poll always_rejected 11 0 (start_polling mounted)) = {#}
   \<and> timers (run_poll always_rejected 11 0 (start_polling mounted)) = fmempty
   \<and> requests (run_poll always_rejected 11 0 (start_polling mounted)) = 11"
proof -
  have e: "\<And>m. fmsubset m fmempty \<Longrightarrow> m = fmempty"
    by (rule fmap_ext) (auto simp: fmsubset_alt_def fmpred_iff fmlookup_dom_iff)
  have m: "timers mounted = fmempty" "in_flight mounted = {#}" "requests mounted = 0"
    by (simp_all add: mounted_def)
  from C9_all_rejected[of 10 mounted 10]
  have a: "ui_status (run_poll always_rejected 10 0 (start_polling mounted)) = Processing"
    "in_flight (run_poll always_rejected 10 0 (start_polling mounted)) = {#10#}"
    "requests (run_poll always_rejected 10 0 (start_polling mounted)) = 11"
    by (simp_all add: m)
  from C9_all_rejected[of 11 mounted 10]
  have b: "ui_status (run_poll always_rejected 11 0 (start_polling mounted)) = ErrorS"
    "in_flight (run_poll always_rejected 11 0 (start_polling mounted)) = {#}"
    "fmsubset (timers (run_poll always_rejected 11 0 (start_polling mounted))) fmempty"
    "requests (run_poll always_rejected 11 0 (start_polling mounted)) = 11"
    by (simp_all add: m)
  from b(3) have t: "timers (run_poll always_rejected 11 0 (start_polling mounted)) = fmempty"
    by (rule e)
  from a b(1,2,4) t show ?thesis by simp
qed

subsection \<open>A document that stays pending\<close>

lemma round_pending:
  assumes "a \<in># in_flight c" "pending doc"
  shows "in_flight (step (step c (Settles a (Resolved doc))) (TimerFires (next_timer c)))
           = add_mset (a + 1) (in_flight c - {#a#})"
    "ui_status (step (step c (Settles a (Resolved doc))) (TimerFires (next_timer c)))
           = ui_status c"
    "requests (step (step c (Settles a (Resolved doc))) (TimerFires (next_timer c)))
           = requests c + 1"
    "waited (step (step c (Settles a (Resolved doc))) (TimerFires (next_timer c)))
           = waited c + getBackoffDelay a"
  using assms by (simp_all add: pending_def Let_def arm_simps)

lemma run_pending:
  "a \<in># in_flight c \<Longrightarrow> (\<And>k. \<exists>doc. src k = Resolved doc \<and> pending doc) \<Longrightarrow>
     in_flight (run_poll src n a c) = add_mset (a + n) (in_flight c - {#a#})
   \<and> ui_status (run_poll src n a c) = ui_status c
   \<and> requests (run_poll src n a c) = requests c + n
   \<and> waited c + 1000 * n \<le> waited (run_poll src n a c)"
proof (induction n arbitrary: c a)
  case 0
  then show ?case by simp
next
  case (Suc n)
  from Suc.prems(2) obtain doc where doc: "src a = Resolved doc" "pending doc"
    by blast
  let ?c1 = "step (step c (Settles a (Resolved doc))) (TimerFires (next_timer c))"
  have run: "run_poll src (Suc n) a c = run_poll src n (Suc a) ?c1"
    using Suc.prems(1) doc by (simp add: pending_def)
  note r = round_pending[OF Suc.prems(1) doc(2)]
  have inf: "Suc a \<in># in_flight ?c1"
    unfolding r(1) by simp
  from Suc.IH[OF inf Suc.prems(2)]
  have ih: "in_flight (run_poll src n (Suc a) ?c1) = add_mset (Suc a + n) (in_flight ?c1 - {#Suc a#})"
    "ui_status (run_poll src n (Suc a) ?c1) = ui_status ?c1"
    "requests (run_poll src n (Suc a) ?c1) = requests ?c1 + n"
    "waited ?c1 + 1000 * n \<le> waited (run_poll src n (Suc a) ?c1)"
    by simp_all
  from ih getBackoffDelay_ge[of a] show ?case
    unfolding run r by simp
qed

lemma always_processing_pending:
  "\<exists>doc. always_processing k = Resolved doc \<and> pending doc"
  by (simp add: always_processing_def pending_def)

text \<open>
  C2, as the code has it. The only budget of \<^verbatim>\<open>pollDocumentStatus\<close> is on requests
  that throw: a request that throws at an attempt index of 10 or more puts the
  component in error and arms no timer, and one that throws earlier is retried after
  the backoff delay. The attempt index counts every earlier request of the poll, not
  only those that threw. A response that finds the document pending arms the next
  timer at every attempt index, and no clock is consulted: against a source that stays
  pending the poll is still processing, with a request in flight, after any number
  \<open>n\<close> of rounds, and has by then waited at least \<open>1000 * n\<close> ms.
\<close>

theorem C2_error_budget_only:
  assumes "a \<in># in_flight c"
  shows "(10 \<le> a \<longrightarrow>
            ui_status (step c (Settles a Rejected)) = ErrorS
          \<and> in_flight (step c (Settles a Rejected)) = in_flight c - {#a#}
          \<and> timers (step c (Settles a Rejected)) = timers c)
       \<and> (a < 10 \<longrightarrow>
            ui_status (step c (Settles a Rejected)) = ui_status c
          \<and> timers (step c (Settles a Rejected))
              = fmupd (next_timer c) (getBackoffDelay a, a + 1) (timers c)
          \<and> pollTimeoutRef (step c (Settles a Rejected)) = Some (next_timer c))
       \<and> (pending doc \<longrightarrow>
            ui_status (step c (Settles a (Resolved doc))) = ui_status c
          \<and> timers (step c (Settles a (Resolved doc)))
              = fmupd (next_timer c) (getBackoffDelay a, a + 1) (timers c)
          \<and> pollTimeoutRef (step c (Settles a (Resolved doc))) = Some (next_timer c))
       \<and> ((\<forall>k. \<exists>doc. src k = Resolved doc \<and> pending doc) \<longrightarrow>
            in_flight (run_poll src n a c) = add_mset (a + n) (in_flight c - {#a#})
          \<and> ui_status (run_poll src n a c) = ui_status c
          \<and> requests (run_poll src n a c) = requests c + n
          \<and> waited c + 1000 * n \<le> waited (run_poll src n a c))"
proof (intro conjI impI)
  assume "\<forall>k. \<exists>doc. src k = Resolved doc \<and> pending doc"
  then have "\<And>k. \<exists>doc. src k = Resolved doc \<and> pending doc" by blast
  from run_pending[OF assms this, where n = n]
  show "in_flight (run_poll src n a c) = add_mset (a + n) (in_flight c - {#a#})"
    "ui_status (run_poll src n a c) = ui_status c"
    "requests (run_poll src n a c) = requests c + n"
    "waited c + 1000 * n \<le> waited (run_poll src n a c)"
    by simp_all
qed (use assms in \<open>simp_all add: pending_def Let_def arm_simps\<close>)

text \<open>
  The statement of the specification fails against a source that stays pending: after
  601 responses the poll has waited more than 600 000 ms, the component is still
  processing, and request 601 is in flight.
\<close>

theorem C2_counterexample:
  "ui_status (run_poll always_processing 601 0 (start_polling mounted)) = Processing
   \<and> in_flight (run_poll always_processing 601 0 (start_polling mounted)) = {#601#}
   \<and> 600000 < waited (run_poll always_processing 601 0 (start_polling mounted))"
proof -
  have src: "\<And>k. \<exists>doc. always_processing k = Resolved doc \<and> pending doc"
    by (rule always_processing_pending)
  have first: "0 \<in># in_flight (start_polling mounted)"
    by (simp add: start_polling_simps)
  from run_pending[of 0 "start_polling mounted" always_processing 601, OF first src]
  show ?thesis
    by (simp add: start_polling_simps mounted_def)
qed

theorem C2_error_budget_only_witness:
  "12 \<in># in_flight (run_poll always_processing 12 0 (start_polling mounted))
   \<and> ui_status (step (run_poll always_processing 12 0 (start_polling mounted))
        (Settles 12 Rejected)) = ErrorS
   \<and> 0 \<in># in_flight (start_polling mounted)
   \<and> fmlookup (timers (step (start_polling mounted) (Settles 0 Rejected))) 1 = Some (1000, 1)
   \<and> pending \<lparr>status = ''processing'', chunk_count = 0\<rparr>
   \<and> fmlookup (timers (step (start_polling mounted)
        (Settles 0 (Resolved \<lparr>status = ''processing'', chunk_count = 0\<rparr>)))) 1
       = Some (1000, 1)"
proof -
  have h0: "0 \<in># in_flight (start_polling mounted)"
    by (simp add: start_polling_simps)
  have src: "\<forall>k. \<exists>doc. always_processing k = Resolved doc \<and> pending doc"
    using always_processing_pending by blast
  have p: "pending \<lparr>status = ''processing'', chunk_count = 0\<rparr>"
    by (simp add: pending_def)
  from C2_error_budget_only[OF h0, of "\<lparr>status = ''processing'', chunk_count = 0\<rparr>"
      always_processing 12] src
  have h12: "12 \<in># in_flight (run_poll always_processing 12 0 (start_polling mounted))"
    by simp
  from C2_error_budget_only[OF h12, of "\<lparr>status = ''processing'', chunk_count = 0\<rparr>"
      always_processing 0]
  have e: "ui_status (step (run_poll always_processing 12 0 (start_polling mounted))
      (Settles 12 Rejected)) = ErrorS"
    by simp
  have lt: "(0::nat) < 10" by simp
  from C2_error_budget_only[OF h0, of "\<lparr>status = ''processing'', chunk_count = 0\<rparr>"
      always_processing 0] p lt
  have t: "timers (step (start_polling mounted) (Settles 0 Rejected))
        = fmupd (next_timer (start_polling mounted)) (getBackoffDelay 0, 0 + 1)
            (timers (start_polling mounted))"
    "timers (step (start_polling mounted)
        (Settles 0 (Resolved \<lparr>status = ''processing'', chunk_count = 0\<rparr>)))
        = fmupd (next_timer (start_polling mounted)) (getBackoffDelay 0, 0 + 1)
            (timers (start_polling mounted))"
    by blast+
  have "fmlookup (timers (step (start_polling mounted) (Settles 0 Rejected))) 1 = Some (1000, 1)"
    "fmlookup (timers (step (start_polling mounted)
        (Settles 0 (Resolved \<lparr>status = ''processing'', chunk_count = 0\<rparr>)))) 1
       = Some (1000, 1)"
    unfolding t
    by (simp_all add: start_polling_simps mounted_def getBackoffDelay_def delays_def)
  with h0 h12 e p show ?thesis by blast
qed

text \<open>
  Timer identifiers stay fresh: no \<^verbatim>\<open>setTimeout\<close> of a reachable state replaces an
  armed timer.
\<close>

lemma fresh_timers_mounted: "fresh_timers mounted"
  by (simp add: fresh_timers_def mounted_def)

lemma fresh_timers_arm: "fresh_timers c \<Longrightarrow> fresh_timers (arm delay attempt c)"
  by (auto simp: fresh_timers_def arm_def)

lemma fresh_timers_poll: "fresh_timers c \<Longrightarrow> fresh_timers (pollDocumentStatus r a c)"
  by (cases r) (auto simp: fresh_timers_def Let_def arm_def)

lemma fresh_timers_step: "fresh_timers c \<Longrightarrow> fresh_timers (step c e)"
proof (cases e)
  case (Settles a r)
  assume "fresh_timers c"
  then have "fresh_timers (c\<lparr>in_flight := in_flight c - {#a#}\<rparr>)"
    by (simp add: fresh_timers_def)
  then have "fresh_timers (pollDocumentStatus r a (c\<lparr>in_flight := in_flight c - {#a#}\<rparr>))"
    by (rule fresh_timers_poll)
  with \<open>fresh_timers c\<close> Settles show ?thesis by simp
qed (auto simp: fresh_timers_def handleCancel_def start_polling_def split: option.splits)

lemma fresh_timers_run: "fresh_timers c \<Longrightarrow> fresh_timers (foldl step c evs)"
  by (induction evs arbitrary: c) (simp_all add: fresh_timers_step)

subsection \<open>Cancelling\<close>

text \<open>Where the only timer armed is the one the ref holds, cancelling leaves none.\<close>

lemma cancel_clears:
  assumes "only_ref_timer c"
  shows "timers (handleCancel c) = fmempty"
proof (rule fmap_ext)
  fix ident
  show "fmlookup (timers (handleCancel c)) ident = fmlookup fmempty ident"
  proof (cases "fmlookup (timers c) ident")
    case None
    then show ?thesis
      by (simp add: handleCancel_def split: option.splits)
  next
    case (Some tm)
    then have "ident |\<in>| fmdom (timers c)"
      by (simp add: fmlookup_dom_iff)
    with assms have "ident \<noteq> 0" "pollTimeoutRef c = Some ident"
      by (auto simp: only_ref_timer_def)
    then show ?thesis
      by (simp add: handleCancel_def)
  qed
qed

text \<open>
  With no timer armed and nothing in flight, a cancelled component stays as it is under
  every event but the start of a new poll.
\<close>

lemma cancelled_step:
  assumes "timers c = fmempty" "in_flight c = {#}"
    "ui_status c = Idle" "document c = None" "pollAttempt c = 0" "e \<noteq> Uploaded"
  shows "step c e = c"
  using assms by (cases e) (simp_all add: handleCancel_def split: option.splits)

lemma cancelled_run:
  assumes "timers c = fmempty" "in_flight c = {#}"
    "ui_status c = Idle" "document c = None" "pollAttempt c = 0" "Uploaded \<notin> set evs"
  shows "foldl step c evs = c"
  using assms(6)
proof (induction evs)
  case Nil
  then show ?case by simp
next
  case (Cons e evs)
  then have "step c e = c"
    using assms(1-5) by (intro cancelled_step) auto
  with Cons show ?case by simp
qed

text \<open>
  C4, as the code has it. Where the backoff timer of a poll is the one that
  \<^verbatim>\<open>pollTimeoutRef\<close> holds and the component has no other poll alive (no status
  request in flight, no other timer armed), cancelling disarms it: whatever timer,
  response and cancel events follow, the component stays as \<^verbatim>\<open>handleCancel\<close> left it,
  idle, with no call of \<^verbatim>\<open>onProcessed\<close>, no notification and no further request. A
  status request that is in flight when the poll is cancelled is not invalidated: when
  it settles, the rest of \<^verbatim>\<open>pollDocumentStatus\<close> runs on the cancelled component as on
  any other. A timer that \<^verbatim>\<open>pollTimeoutRef\<close> does not hold stays armed.
\<close>

theorem C4_cancel_clears_timer_only:
  "(only_ref_timer c \<and> Uploaded \<notin> set evs \<longrightarrow>
      foldl step (step c Cancel) evs = step c Cancel
    \<and> ui_status (foldl step (step c Cancel) evs) = Idle
    \<and> timers (foldl step (step c Cancel) evs) = fmempty
    \<and> in_flight (foldl step (step c Cancel) evs) = {#}
    \<and> onProcessed_log (foldl step (step c Cancel) evs) = onProcessed_log c
    \<and> toasts (foldl step (step c Cancel) evs) = toasts c
    \<and> requests (foldl step (step c Cancel) evs) = requests c)
 \<and> (a \<in># in_flight c \<longrightarrow>
      step (step c Cancel) (Settles a r)
        = pollDocumentStatus r a ((handleCancel c)\<lparr>in_flight := in_flight c - {#a#}\<rparr>))
 \<and> (fmlookup (timers c) ident = Some tm \<and> pollTimeoutRef c \<noteq> Some ident \<longrightarrow>
      fmlookup (timers (step c Cancel)) ident = Some tm)"
proof (intro conjI impI)
  assume h: "only_ref_timer c \<and> Uploaded \<notin> set evs"
  then have none: "timers (handleCancel c) = fmempty"
    by (simp add: cancel_clears)
  from h have quiet: "in_flight (handleCancel c) = {#}"
    by (simp add: only_ref_timer_def handleCancel_def)
  have rest: "ui_status (handleCancel c) = Idle" "document (handleCancel c) = None"
    "pollAttempt (handleCancel c) = 0"
    by (simp_all add: handleCancel_def)
  from h have "foldl step (handleCancel c) evs = handleCancel c"
    by (intro cancelled_run none quiet rest) simp
  then show stay: "foldl step (step c Cancel) evs = step c Cancel"
    by simp
  show "ui_status (foldl step (step c Cancel) evs) = Idle"
    "timers (foldl step (step c Cancel) evs) = fmempty"
    "in_flight (foldl step (step c Cancel) evs) = {#}"
    "onProcessed_log (foldl step (step c Cancel) evs) = onProcessed_log c"
    "toasts (foldl step (step c Cancel) evs) = toasts c"
    "requests (foldl step (step c Cancel) evs) = requests c"
    unfolding stay using none quiet by (simp_all add: handleCancel_def)
next
  assume "a \<in># in_flight c"
  then show "step (step c Cancel) (Settles a r)
        = pollDocumentStatus r a ((handleCancel c)\<lparr>in_flight := in_flight c - {#a#}\<rparr>)"
    by (simp add: handleCancel_def)
next
  assume "fmlookup (timers c) ident = Some tm \<and> pollTimeoutRef c \<noteq> Some ident"
  then show "fmlookup (timers (step c Cancel)) ident = Some tm"
    by (auto simp: handleCancel_def split: option.splits)
qed

text \<open>
  The statement of the specification fails in both of its cases. A poll is cancelled
  while its first status request is in flight, and the response then reports a
  processed document: the component becomes processed and \<^verbatim>\<open>onProcessed\<close> is called.
  And a poll is cancelled during its backoff wait while the ref holds another timer: a
  first poll was cancelled with its request in flight, a second upload started a second
  poll, both requests found the document pending and armed timers 1 and 2, and the
  cancel that follows disarms timer 2 only; timer 1 fires, its request finds the
  document processed, and \<^verbatim>\<open>onProcessed\<close> is called.
\<close>

theorem C4_counterexample:
  "ui_status (foldl step mounted
      [Uploaded, Cancel, Settles 0 (Resolved \<lparr>status = ''processed'', chunk_count = 3\<rparr>)])
     = ProcessedS
   \<and> onProcessed_log (foldl step mounted
      [Uploaded, Cancel, Settles 0 (Resolved \<lparr>status = ''processed'', chunk_count = 3\<rparr>)])
     = [\<lparr>status = ''processed'', chunk_count = 3\<rparr>]
   \<and> pollTimeoutRef (foldl step mounted
      [Uploaded, Cancel, Uploaded,
       Settles 0 (Resolved \<lparr>status = ''processing'', chunk_count = 0\<rparr>),
       Settles 0 (Resolved \<lparr>status = ''processing'', chunk_count = 0\<rparr>)]) = Some 2
   \<and> fmlookup (timers (foldl step mounted
      [Uploaded, Cancel, Uploaded,
       Settles 0 (Resolved \<lparr>status = ''processing'', chunk_count = 0\<rparr>),
       Settles 0 (Resolved \<lparr>status = ''processing'', chunk_count = 0\<rparr>)])) 1
     = Some (1000, 1)
   \<and> ui_status (foldl step mounted
      [Uploaded, Cancel, Uploaded,
       Settles 0 (Resolved \<lparr>status = ''processing'', chunk_count = 0\<rparr>),
       Settles 0 (Resolved \<lparr>status = ''processing'', chunk_count = 0\<rparr>),
       Cancel, TimerFires 1,
       Settles 1 (Resolved \<lparr>status = ''processed'', chunk_count = 3\<rparr>)])
     = ProcessedS
   \<and> onProcessed_log (foldl step mounted
      [Uploaded, Cancel, Uploaded,
       Settles 0 (Resolved \<lparr>status = ''processing'', chunk_count = 0\<rparr>),
       Settles 0 (Resolved \<lparr>status = ''processing'', chunk_count = 0\<rparr>),
       Cancel, TimerFires 1,
       Settles 1 (Resolved \<lparr>status = ''processed'', chunk_count = 3\<rparr>)])
     = [\<lparr>status = ''processed'', chunk_count = 3\<rparr>]"
  by (simp add: start_polling_def mounted_def handleCancel_def arm_def getBackoffDelay_def
      delays_def)

text \<open>
  A poll cancelled during its first backoff wait, alone in the component: the timer
  that would have fired and the response that would have followed change nothing. A
  poll cancelled with its first request in flight: a pending response arms the next
  timer. Two polls waiting: the cancel leaves timer 1 armed.
\<close>

theorem C4_cancel_clears_timer_only_witness:
  "only_ref_timer (foldl step mounted [Uploaded, Settles 0 Rejected])
   \<and> fmlookup (timers (foldl step mounted [Uploaded, Settles 0 Rejected])) 1 = Some (1000, 1)
   \<and> ui_status (foldl step (step (foldl step mounted [Uploaded, Settles 0 Rejected]) Cancel)
        [TimerFires 1, Settles 1 (Resolved \<lparr>status = ''processed'', chunk_count = 3\<rparr>), Cancel])
       = Idle
   \<and> onProcessed_log
        (foldl step (step (foldl step mounted [Uploaded, Settles 0 Rejected]) Cancel)
        [TimerFires 1, Settles 1 (Resolved \<lparr>status = ''processed'', chunk_count = 3\<rparr>), Cancel])
       = []
   \<and> 0 \<in># in_flight (start_polling mounted)
   \<and> fmlookup (timers (step (step (start_polling mounted) Cancel)
        (Settles 0 (Resolved \<lparr>status = ''processing'', chunk_count = 0\<rparr>)))) 1
       = Some (1000, 1)
   \<and> fmlookup (timers (step (foldl step mounted
        [Uploaded, Uploaded, Settles 0 Rejected, Settles 0 Rejected]) Cancel)) 1
       = Some (1000, 1)"
proof -
  let ?c = "foldl step mounted [Uploaded, Settles 0 Rejected]"
  let ?evs = "[TimerFires 1, Settles 1 (Resolved \<lparr>status = ''processed'', chunk_count = 3\<rparr>),
      Cancel]"
  let ?two = "foldl step mounted [Uploaded, Uploaded, Settles 0 Rejected, Settles 0 Rejected]"
  have h: "only_ref_timer ?c" "fmlookup (timers ?c) 1 = Some (1000, 1)" "onProcessed_log ?c = []"
    by (simp_all add: only_ref_timer_def start_polling_def mounted_def arm_def
        getBackoffDelay_def delays_def)
  have ev: "Uploaded \<notin> set ?evs"
    by simp
  have h0: "0 \<in># in_flight (start_polling mounted)"
    by (simp add: start_polling_simps)
  have two: "fmlookup (timers ?two) 1 = Some (1000, 1)" "pollTimeoutRef ?two \<noteq> Some 1"
    by (simp_all add: start_polling_def mounted_def arm_def getBackoffDelay_def delays_def)
  from C4_cancel_clears_timer_only[of ?c ?evs 0 Rejected 1 "(1000, 1)"] h(1) ev
  have a1: "ui_status (foldl step (step ?c Cancel) ?evs) = Idle"
    and a2': "onProcessed_log (foldl step (step ?c Cancel) ?evs) = onProcessed_log ?c"
    by blast+
  have a2: "onProcessed_log (foldl step (step ?c Cancel) ?evs) = []"
    using a2' h(3) by (simp only:)
  from C4_cancel_clears_timer_only[of "start_polling mounted" "[]" 0
      "Resolved \<lparr>status = ''processing'', chunk_count = 0\<rparr>" 1 "(1000, 1)"] h0
  have "step (step (start_polling mounted) Cancel)
        (Settles 0 (Resolved \<lparr>status = ''processing'', chunk_count = 0\<rparr>))
      = pollDocumentStatus (Resolved \<lparr>status = ''processing'', chunk_count = 0\<rparr>) 0
          ((handleCancel (start_polling mounted))
             \<lparr>in_flight := in_flight (start_polling mounted) - {#0#}\<rparr>)"
    by blast
  then have b: "fmlookup (timers (step (step (start_polling mounted) Cancel)
        (Settles 0 (Resolved \<lparr>status = ''processing'', chunk_count = 0\<rparr>)))) 1
       = Some (1000, 1)"
    by (simp add: handleCancel_def start_polling_def mounted_def arm_def getBackoffDelay_def
        delays_def)
  from C4_cancel_clears_timer_only[of ?two "[]" 0 Rejected 1 "(1000, 1)"] two
  have c: "fmlookup (timers (step ?two Cancel)) 1 = Some (1000, 1)"
    by blast
  show ?thesis
    by (intro conjI h(1) h(2) a1 a2 h0 b c)
qed

end
